theory Spec2Isabelle
  imports
    Complex_Main
    "HOL-Library.AList"
    "HOL-Library.Char_ord"
    "HOL-Library.List_Lexorder"
    "HOL-Library.Multiset"
begin

section \<open>The log-to-CSV script \<^verbatim>\<open>scripts/parse_to_csv.py\<close>\<close>

text \<open>
  The script reads \<^verbatim>\<open>sim2500.log\<close> line by line, keeps the lines that its regular
  expression \<^verbatim>\<open>line_re\<close> finds a match in, writes one row per kept line to
  \<^verbatim>\<open>data/sim_per_trade.csv\<close>, folds the rows into six dictionaries keyed by symbol and
  writes one row per symbol to \<^verbatim>\<open>data/sim_summary_by_symbol.csv\<close>.

  Conventions of the embedding.
  \<^item> A Python \<^verbatim>\<open>str\<close> is a \<^typ>\<open>string\<close>. A \<^typ>\<open>char\<close> stands for a code point below 256,
    so the development covers logs whose text stays in that range; there the decimal
    digits are \<^verbatim>\<open>0\<close> to \<^verbatim>\<open>9\<close> and the white space characters are the twelve listed in
    \<open>is_space\<close>.
  \<^item> A Python \<^verbatim>\<open>int\<close> is an \<^typ>\<open>int\<close>.
  \<^item> A Python \<^verbatim>\<open>float\<close> is a \<open>pyfloat\<close>: a binary64 value with its sign, the two
    infinities and NaN; every arithmetic result is rounded to nearest, ties to even.
  \<^item> A dictionary is an association list in insertion order.
  \<^item> An exception is a value of type \<open>error\<close>; the files the script touches are fields
    of a record \<open>world\<close>.
\<close>

subsection \<open>Character classes of the pattern\<close>

definition is_digit :: "char \<Rightarrow> bool" where
  \<comment> \<open>\<^verbatim>\<open>\d\<close>, and the digits \<^verbatim>\<open>int()\<close> and \<^verbatim>\<open>float()\<close> read\<close>
  "is_digit c = (c \<in> set ''0123456789'')"

definition is_space :: "char \<Rightarrow> bool" where
  \<comment> \<open>\<^verbatim>\<open>\s\<close>, and what \<^verbatim>\<open>str.strip()\<close> removes: tab, LF, VT, FF, CR, FS, GS, RS, US, space, NEL, NBSP\<close>
  "is_space c = (c \<in> set [CHR 0x09, CHR 0x0A, CHR 0x0B, CHR 0x0C, CHR 0x0D,
                            CHR 0x1C, CHR 0x1D, CHR 0x1E, CHR 0x1F, CHR 0x20,
                            CHR 0x85, CHR 0xA0])"

datatype cset =
    Digit                 \<comment> \<open>\<^verbatim>\<open>\d\<close>\<close>
  | Space                 \<comment> \<open>\<^verbatim>\<open>\s\<close>\<close>
  | Dot                   \<comment> \<open>\<^verbatim>\<open>.\<close> without DOTALL: anything but a line feed\<close>
  | Only string           \<comment> \<open>\<^verbatim>\<open>[abc]\<close>\<close>
  | Except string         \<comment> \<open>\<^verbatim>\<open>[^abc]\<close>\<close>

fun in_cset :: "cset \<Rightarrow> char \<Rightarrow> bool" where
  "in_cset Digit c = is_digit c"
| "in_cset Space c = is_space c"
| "in_cset Dot c = (c \<noteq> CHR 0x0A)"
| "in_cset (Only cs) c = (c \<in> set cs)"
| "in_cset (Except cs) c = (c \<notin> set cs)"

subsection \<open>A backtracking matcher for the constructs the pattern uses\<close>

datatype item =
    Bol                   \<comment> \<open>\<^verbatim>\<open>^\<close> without MULTILINE: the start of the string\<close>
  | Lit string            \<comment> \<open>literal text\<close>
  | Rep nat cset          \<comment> \<open>\<^verbatim>\<open>c{n}\<close>\<close>
  | Plus cset             \<comment> \<open>\<^verbatim>\<open>c+\<close>, greedy\<close>
  | LazyStar cset         \<comment> \<open>\<^verbatim>\<open>c*?\<close>, lazy\<close>
  | Opt char              \<comment> \<open>\<^verbatim>\<open>x?\<close>, greedy\<close>
  | Alt "string list"     \<comment> \<open>\<^verbatim>\<open>a|b\<close> between literal texts, tried left to right\<close>
  | Open                  \<comment> \<open>\<^verbatim>\<open>(\<close> of a capturing group\<close>
  | Close                 \<comment> \<open>\<^verbatim>\<open>)\<close>\<close>

definition run_len :: "cset \<Rightarrow> string \<Rightarrow> nat \<Rightarrow> nat" where
  \<comment> \<open>how many characters from position \<open>i\<close> on lie in the class\<close>
  "run_len c s i = length (takeWhile (in_cset c) (drop i s))"

definition looking_at :: "string \<Rightarrow> string \<Rightarrow> nat \<Rightarrow> bool" where
  "looking_at l s i = (take (length l) (drop i s) = l)"

text \<open>
  \<open>m ps s i opn caps\<close> matches the items \<open>ps\<close> against the subject \<open>s\<close> from position
  \<open>i\<close>. \<open>opn\<close> is where the group that is open began and \<open>caps\<close> are the spans of the
  groups closed so far. The result lists the capture spans of every way to match, in the
  order a backtracking engine tries them: a greedy item tries the longest run first, a
  lazy one the shortest, an alternation its branches from the left. The engine reports
  the first.
\<close>

fun m :: "item list \<Rightarrow> string \<Rightarrow> nat \<Rightarrow> nat \<Rightarrow> (nat \<times> nat) list \<Rightarrow> (nat \<times> nat) list list" where
  "m [] s i opn caps = [caps]"
| "m (Bol # ps) s i opn caps = (if i = 0 then m ps s i opn caps else [])"
| "m (Lit l # ps) s i opn caps =
     (if looking_at l s i then m ps s (i + length l) opn caps else [])"
| "m (Rep n c # ps) s i opn caps =
     (if n \<le> run_len c s i then m ps s (i + n) opn caps else [])"
| "m (Plus c # ps) s i opn caps =
     concat (map (\<lambda>k. m ps s (i + k) opn caps) (rev [1 ..< Suc (run_len c s i)]))"
| "m (LazyStar c # ps) s i opn caps =
     concat (map (\<lambda>k. m ps s (i + k) opn caps) [0 ..< Suc (run_len c s i)])"
| "m (Opt x # ps) s i opn caps =
     (if looking_at [x] s i then m ps s (i + 1) opn caps else []) @ m ps s i opn caps"
| "m (Alt ls # ps) s i opn caps =
     concat (map (\<lambda>l. if looking_at l s i then m ps s (i + length l) opn caps else []) ls)"
| "m (Open # ps) s i opn caps = m ps s i i caps"
| "m (Close # ps) s i opn caps = m ps s i opn (caps @ [(opn, i)])"

definition substr :: "string \<Rightarrow> nat \<times> nat \<Rightarrow> string" where
  "substr s sp = take (snd sp - fst sp) (drop (fst sp) s)"

definition search :: "item list \<Rightarrow> string \<Rightarrow> string list option" where
  \<comment> \<open>\<^verbatim>\<open>pattern.search(s)\<close> followed by \<^verbatim>\<open>.groups()\<close>: the first start position with a match\<close>
  "search ps s =
     (case concat (map (\<lambda>i. m ps s i i []) [0 ..< Suc (length s)]) of
        [] \<Rightarrow> None
      | caps # _ \<Rightarrow> Some (map (substr s) caps))"

definition line_re :: "item list" where
  "line_re =
     [Bol,
      Open, Rep 4 Digit, Lit ''/'', Rep 2 Digit, Lit ''/'', Rep 2 Digit, Lit '' '',
            Rep 2 Digit, Lit '':'', Rep 2 Digit, Lit '':'', Rep 2 Digit, Close,
      Lit '' '', LazyStar Dot,
      Open, Alt [''HIT:'', ''MISS:''], Close,
      Plus Space,
      Open, Plus (Except ''|''), Close,
      Lit '' | PnL=$'',
      Open, Opt (CHR ''-''), Plus (Only ''0123456789.''), Close,
      Lit '' | Capital=$'',
      Open, Plus (Only ''0123456789.''), Close,
      Lit '' | Trades: '',
      Open, Plus Digit, Close,
      Lit ''/'',
      Open, Plus Digit, Close]"

subsection \<open>Python values: exceptions, floats\<close>

datatype error = ValueError | OSError | OverflowError | ZeroDivisionError | KeyError

definition bind_err :: "error + 'a \<Rightarrow> ('a \<Rightarrow> error + 'b) \<Rightarrow> error + 'b" where
  \<comment> \<open>evaluate \<open>x\<close>; an exception raised there is the outcome, else go on with the value\<close>
  "bind_err x f = (case x of Inl e \<Rightarrow> Inl e | Inr v \<Rightarrow> f v)"

text \<open>
  A float is finite with a sign and a magnitude (so that \<^verbatim>\<open>-0.0\<close> is a value of its own),
  infinite with a sign, or NaN. The sign is \<open>True\<close> for negative values.
\<close>

datatype pyfloat = Fin bool rat | Infty bool | NaN

definition sval :: "bool \<Rightarrow> rat \<Rightarrow> rat" where
  "sval sg x = (if sg then - x else x)"

function bitlen :: "int \<Rightarrow> int" where
  \<comment> \<open>the number of binary digits of \<open>n\<close>\<close>
  "bitlen n = (if n \<le> 0 then 0 else 1 + bitlen (n div 2))"
  by pat_completeness auto
termination
  by (relation "measure nat") auto

declare bitlen.simps [simp del]

definition pow2 :: "int \<Rightarrow> rat" where
  "pow2 e = (if 0 \<le> e then 2 ^ nat e else 1 / 2 ^ nat (- e))"

definition ilog2 :: "rat \<Rightarrow> int" where
  \<comment> \<open>for \<open>0 < x\<close>: the exponent \<open>e\<close> with \<open>2\<^sup>e \<le> x < 2\<^sup>e\<^sup>+\<^sup>1\<close>\<close>
  "ilog2 x = (if 1 \<le> x then bitlen \<lfloor>x\<rfloor> - 1 else - bitlen (\<lceil>1 / x\<rceil> - 1))"

definition round_half_even :: "rat \<Rightarrow> int" where
  "round_half_even x =
     (let f = \<lfloor>x\<rfloor>; d = x - of_int f
      in if d < 1 / 2 then f else if 1 / 2 < d then f + 1 else if even f then f else f + 1)"

definition to_binary64 :: "bool \<Rightarrow> rat \<Rightarrow> pyfloat" where
  \<comment> \<open>the binary64 value nearest to the magnitude \<open>x \<ge> 0\<close>, ties to even: a significand
      \<open>k\<close> of at most 53 bits times \<open>2\<^sup>u\<close>, with \<open>u\<close> at least -1074; the value is infinite
      from \<open>2\<^sup>1\<^sup>0\<^sup>2\<^sup>4\<close> on, which is \<open>k = 2\<^sup>5\<^sup>3\<close> at \<open>u = 971\<close>\<close>
  "to_binary64 sg x =
     (if x = 0 then Fin sg 0
      else let u = max (ilog2 x) (- 1022) - 52;
               k = round_half_even (x / pow2 u)
           in if 971 < u \<or> (u = 971 \<and> 2 ^ 53 \<le> k) then Infty sg
              else Fin sg (of_int k * pow2 u))"

fun fadd :: "pyfloat \<Rightarrow> pyfloat \<Rightarrow> pyfloat" where
  "fadd NaN b = NaN"
| "fadd a NaN = NaN"
| "fadd (Infty s) (Infty t) = (if s = t then Infty s else NaN)"
| "fadd (Infty s) (Fin t y) = Infty s"
| "fadd (Fin s x) (Infty t) = Infty t"
| "fadd (Fin s x) (Fin t y) =
     (let v = sval s x + sval t y
      in if v = 0 then Fin (s \<and> t) 0 else to_binary64 (v < 0) \<bar>v\<bar>)"

fun fmul :: "pyfloat \<Rightarrow> pyfloat \<Rightarrow> pyfloat" where
  "fmul NaN b = NaN"
| "fmul a NaN = NaN"
| "fmul (Infty s) (Infty t) = Infty (s \<noteq> t)"
| "fmul (Infty s) (Fin t y) = (if y = 0 then NaN else Infty (s \<noteq> t))"
| "fmul (Fin s x) (Infty t) = (if x = 0 then NaN else Infty (s \<noteq> t))"
| "fmul (Fin s x) (Fin t y) = to_binary64 (s \<noteq> t) (x * y)"

fun fdiv :: "pyfloat \<Rightarrow> pyfloat \<Rightarrow> error + pyfloat" where
  "fdiv a (Fin t y) =
     (if y = 0 then Inl ZeroDivisionError
      else case a of
             Fin s x \<Rightarrow> Inr (to_binary64 (s \<noteq> t) (x / y))
           | Infty s \<Rightarrow> Inr (Infty (s \<noteq> t))
           | NaN \<Rightarrow> Inr NaN)"
| "fdiv a (Infty t) = (case a of Fin s x \<Rightarrow> Inr (Fin (s \<noteq> t) 0) | _ \<Rightarrow> Inr NaN)"
| "fdiv a NaN = Inr NaN"

fun flt :: "pyfloat \<Rightarrow> pyfloat \<Rightarrow> bool" where
  \<comment> \<open>\<^verbatim>\<open>a < b\<close>; \<^verbatim>\<open>a > b\<close> is \<open>flt b a\<close>\<close>
  "flt NaN b = False"
| "flt a NaN = False"
| "flt (Infty s) (Infty t) = (s \<and> \<not> t)"
| "flt (Infty s) (Fin t y) = s"
| "flt (Fin s x) (Infty t) = (\<not> t)"
| "flt (Fin s x) (Fin t y) = (sval s x < sval t y)"

definition int_to_float :: "int \<Rightarrow> error + pyfloat" where
  \<comment> \<open>the conversion of an \<^verbatim>\<open>int\<close> operand of a float operation\<close>
  "int_to_float n =
     (case to_binary64 (n < 0) (of_int \<bar>n\<bar>) of
        Infty s \<Rightarrow> Inl OverflowError
      | f \<Rightarrow> Inr f)"

definition float_mul_int :: "pyfloat \<Rightarrow> int \<Rightarrow> error + pyfloat" where
  "float_mul_int a n = bind_err (int_to_float n) (\<lambda>b. Inr (fmul a b))"

definition float_div_int :: "pyfloat \<Rightarrow> int \<Rightarrow> error + pyfloat" where
  "float_div_int a n = bind_err (int_to_float n) (\<lambda>b. fdiv a b)"

fun py_round2 :: "pyfloat \<Rightarrow> pyfloat" where
  \<comment> \<open>\<^verbatim>\<open>round(x, 2)\<close>: the float nearest to the two-decimal number nearest to \<open>x\<close>\<close>
  "py_round2 (Fin s x) = to_binary64 s (of_int (round_half_even (x * 100)) / 100)"
| "py_round2 (Infty s) = Infty s"
| "py_round2 NaN = NaN"

subsection \<open>Python values: strings to numbers, string operations\<close>

definition digits_val :: "string \<Rightarrow> int" where
  "digits_val ds = foldl (\<lambda>a c. 10 * a + (of_char c - 48)) 0 ds"

text \<open>
  \<^verbatim>\<open>float(s)\<close> and \<^verbatim>\<open>int(s)\<close> on the strings the pattern can hand over, which consist of
  digits, dots and a leading minus sign. (Python reads more: blanks around the number, a
  plus sign, underscores, exponents, \<^verbatim>\<open>inf\<close> and \<^verbatim>\<open>nan\<close>; none of these can reach the two
  calls.) \<^verbatim>\<open>float\<close> wants at most one dot and at least one digit and rounds the decimal
  number correctly. \<^verbatim>\<open>int\<close> wants digits only and, in interpreters with the limit on
  integer string conversion, at most \<open>int_max_str_digits\<close> of them.
\<close>

definition py_float :: "string \<Rightarrow> error + pyfloat" where
  "py_float s =
     (let neg = (take 1 s = ''-'');
          body = (if neg then drop 1 s else s);
          ip = takeWhile is_digit body;
          rest = dropWhile is_digit body;
          fp = drop 1 rest
      in if (rest = [] \<or> take 1 rest = ''.'') \<and> list_all is_digit fp \<and> ip @ fp \<noteq> []
         then Inr (to_binary64 neg (of_int (digits_val (ip @ fp)) / 10 ^ length fp))
         else Inl ValueError)"

definition int_max_str_digits :: nat where
  "int_max_str_digits = 4300"

definition py_int :: "string \<Rightarrow> error + int" where
  "py_int s =
     (if s \<noteq> [] \<and> list_all is_digit s \<and> length s \<le> int_max_str_digits
      then Inr (digits_val s) else Inl ValueError)"

fun py_in :: "string \<Rightarrow> string \<Rightarrow> bool" where
  \<comment> \<open>\<^verbatim>\<open>sub in s\<close>\<close>
  "py_in sub [] = (sub = [])"
| "py_in sub (c # cs) = (take (length sub) (c # cs) = sub \<or> py_in sub cs)"

definition strip :: "string \<Rightarrow> string" where
  "strip s = rev (dropWhile is_space (rev (dropWhile is_space s)))"

subsection \<open>The parse loop\<close>

record trade =
  timestamp :: string
  status :: string
  symbol :: string
  pnl_usd :: pyfloat
  capital_usd :: pyfloat
  trade_index :: int
  total_trades :: int

definition parse_line :: "string \<Rightarrow> error + trade option" where
  \<comment> \<open>the body of the loop over the lines: \<open>Inr None\<close> is \<^verbatim>\<open>continue\<close>\<close>
  "parse_line line =
     (case search line_re line of
        None \<Rightarrow> Inr None
      | Some g \<Rightarrow>
          (case g of
             [ts, status_tag, sym', pnl, cap, idx, total'] \<Rightarrow>
               bind_err (py_float pnl) (\<lambda>p.
               bind_err (py_float cap) (\<lambda>c.
               bind_err (py_int idx) (\<lambda>i.
               bind_err (py_int total') (\<lambda>t.
                 Inr (Some \<lparr>timestamp = ts,
                            status = (if py_in ''HIT'' status_tag then ''HIT'' else ''MISS''),
                            symbol = strip sym',
                            pnl_usd = p, capital_usd = c,
                            trade_index = i, total_trades = t\<rparr>)))))
           | _ \<Rightarrow> Inl ValueError))"

fun parse_lines :: "string list \<Rightarrow> trade list \<Rightarrow> error + trade list" where
  "parse_lines [] rows = Inr rows"
| "parse_lines (line # ls) rows =
     (case parse_line line of
        Inl e \<Rightarrow> Inl e
      | Inr None \<Rightarrow> parse_lines ls rows
      | Inr (Some r) \<Rightarrow> parse_lines ls (rows @ [r]))"

subsection \<open>The aggregation loop\<close>

record tallies =
  cnt :: "(string \<times> int) list"
  sum_p :: "(string \<times> pyfloat) list"
  hits :: "(string \<times> int) list"
  miss :: "(string \<times> int) list"
  max_p :: "(string \<times> pyfloat) list"
  min_p :: "(string \<times> pyfloat) list"

definition dd_int :: "(string \<times> int) list \<Rightarrow> string \<Rightarrow> int" where
  \<comment> \<open>reading \<^verbatim>\<open>defaultdict(int)\<close>\<close>
  "dd_int d k = (case map_of d k of None \<Rightarrow> 0 | Some v \<Rightarrow> v)"

definition dd_float :: "(string \<times> pyfloat) list \<Rightarrow> string \<Rightarrow> pyfloat" where
  \<comment> \<open>reading \<^verbatim>\<open>defaultdict(float)\<close>\<close>
  "dd_float d k = (case map_of d k of None \<Rightarrow> Fin False 0 | Some v \<Rightarrow> v)"

definition dict_get :: "(string \<times> 'v) list \<Rightarrow> string \<Rightarrow> error + 'v" where
  \<comment> \<open>reading a plain \<^verbatim>\<open>dict\<close>\<close>
  "dict_get d k = (case map_of d k of None \<Rightarrow> Inl KeyError | Some v \<Rightarrow> Inr v)"

definition no_tallies :: tallies where
  "no_tallies = \<lparr>cnt = [], sum_p = [], hits = [], miss = [], max_p = [], min_p = []\<rparr>"

definition fold_row :: "tallies \<Rightarrow> trade \<Rightarrow> tallies" where
  \<comment> \<open>the body of the loop over \<^verbatim>\<open>rows\<close>\<close>
  "fold_row a r =
     (let sym' = symbol r; pnl = pnl_usd r;
          a1 = a\<lparr>cnt := AList.update sym' (dd_int (cnt a) sym' + 1) (cnt a),
                 sum_p := AList.update sym' (fadd (dd_float (sum_p a) sym') pnl) (sum_p a)\<rparr>;
          a2 = (case map_of (max_p a1) sym' of
                  None \<Rightarrow> a1\<lparr>max_p := AList.update sym' pnl (max_p a1)\<rparr>
                | Some mx \<Rightarrow> if flt mx pnl then a1\<lparr>max_p := AList.update sym' pnl (max_p a1)\<rparr> else a1);
          a3 = (case map_of (min_p a2) sym' of
                  None \<Rightarrow> a2\<lparr>min_p := AList.update sym' pnl (min_p a2)\<rparr>
                | Some mn \<Rightarrow> if flt pnl mn then a2\<lparr>min_p := AList.update sym' pnl (min_p a2)\<rparr> else a2)
      in if status r = ''HIT''
         then a3\<lparr>hits := AList.update sym' (dd_int (hits a3) sym' + 1) (hits a3)\<rparr>
         else a3\<lparr>miss := AList.update sym' (dd_int (miss a3) sym' + 1) (miss a3)\<rparr>)"

definition aggregate :: "trade list \<Rightarrow> tallies" where
  "aggregate rows = foldl fold_row no_tallies rows"

subsection \<open>The summary\<close>

record summary_row =
  s_symbol :: string
  s_hits :: int
  s_misses :: int
  s_total :: int
  win_rate_pct :: pyfloat
  avg_pnl_usd :: pyfloat
  sum_pnl_usd :: pyfloat
  max_pnl_usd :: pyfloat
  min_pnl_usd :: pyfloat

definition summary_line :: "tallies \<Rightarrow> string \<Rightarrow> error + summary_row" where
  \<comment> \<open>the body of the loop over the sorted symbols, up to the row handed to the writer\<close>
  "summary_line a sym' =
     (let tot = dd_int (cnt a) sym'
      in bind_err (if tot \<noteq> 0
                   then bind_err (float_mul_int (Fin False 100) (dd_int (hits a) sym'))
                          (\<lambda>x. float_div_int x tot)
                   else Inr (Fin False 0)) (\<lambda>wr.
         bind_err (if tot \<noteq> 0 then float_div_int (dd_float (sum_p a) sym') tot
                   else Inr (Fin False 0)) (\<lambda>avg.
         bind_err (dict_get (max_p a) sym') (\<lambda>mx.
         bind_err (dict_get (min_p a) sym') (\<lambda>mn.
           Inr \<lparr>s_symbol = sym',
                s_hits = dd_int (hits a) sym',
                s_misses = dd_int (miss a) sym',
                s_total = tot,
                win_rate_pct = py_round2 wr,
                avg_pnl_usd = py_round2 avg,
                sum_pnl_usd = py_round2 (dd_float (sum_p a) sym'),
                max_pnl_usd = py_round2 mx,
                min_pnl_usd = py_round2 mn\<rparr>)))))"

fun write_summary ::
  "tallies \<Rightarrow> string list \<Rightarrow> summary_row list \<Rightarrow> error option \<times> summary_row list" where
  \<comment> \<open>the rows in the file when the loop ends, and the exception that ended it, if any\<close>
  "write_summary a [] out = (None, out)"
| "write_summary a (sym' # syms) out =
     (case summary_line a sym' of
        Inl e \<Rightarrow> (Some e, out)
      | Inr r \<Rightarrow> write_summary a syms (out @ [r]))"

subsection \<open>The files and the whole script\<close>

datatype entry =
    Absent                \<comment> \<open>nothing at the path \<^verbatim>\<open>data\<close>, and it can be created\<close>
  | Dir                   \<comment> \<open>\<^verbatim>\<open>data\<close> is a directory\<close>
  | Refused               \<comment> \<open>\<^verbatim>\<open>os.makedirs\<close> raises: the path is a file, or may not be created\<close>

record world =
  log_file :: "string list option"
    \<comment> \<open>the lines \<^verbatim>\<open>sim2500.log\<close> yields; \<open>None\<close> when it cannot be opened or read\<close>
  out_dir :: entry
  per_trade_csv :: "(string list \<times> trade list) option"
    \<comment> \<open>header and rows of \<^verbatim>\<open>data/sim_per_trade.csv\<close>; \<open>None\<close> while the file does not exist\<close>
  summary_csv :: "(string list \<times> summary_row list) option"
  stdout :: "string list"

definition per_trade_header :: "string list" where
  "per_trade_header =
     [''timestamp'', ''status'', ''symbol'', ''pnl_usd'', ''capital_usd'',
      ''trade_index'', ''total_trades'']"

definition summary_header :: "string list" where
  "summary_header =
     [''symbol'', ''hits'', ''misses'', ''total'', ''win_rate_pct'', ''avg_pnl_usd'',
      ''sum_pnl_usd'', ''max_pnl_usd'', ''min_pnl_usd'']"

definition per_trade_path :: string where
  "per_trade_path = ''data/sim_per_trade.csv''"

definition summary_path :: string where
  "summary_path = ''data/sim_summary_by_symbol.csv''"

text \<open>
  The script from top to bottom. The result is the exception that ended the run
  (\<open>None\<close> when it ran to the end) and the files as the run left them. Opening the two
  output files for writing is taken to succeed once the directory is there.
\<close>

definition main :: "world \<Rightarrow> error option \<times> world" where
  "main w =
     (case out_dir w of
        Refused \<Rightarrow> (Some OSError, w)
      | _ \<Rightarrow>
          let w1 = w\<lparr>out_dir := Dir\<rparr>
          in case log_file w1 of
               None \<Rightarrow> (Some OSError, w1)
             | Some lines \<Rightarrow>
                 (case parse_lines lines [] of
                    Inl e \<Rightarrow> (Some e, w1)
                  | Inr rows \<Rightarrow>
                      let w2 = w1\<lparr>per_trade_csv := Some (per_trade_header, rows)\<rparr>;
                          a = aggregate rows;
                          (err, out) = write_summary a (sort (map fst (cnt a))) [];
                          w3 = w2\<lparr>summary_csv := Some (summary_header, out)\<rparr>
                      in case err of
                           Some e \<Rightarrow> (Some e, w3)
                         | None \<Rightarrow>
                             (None, w3\<lparr>stdout := stdout w3 @ [per_trade_path, summary_path]\<rparr>)))"

subsection \<open>Notions the properties are stated with\<close>

definition per_trade_rows :: "world \<Rightarrow> trade list" where
  "per_trade_rows w = (case per_trade_csv w of None \<Rightarrow> [] | Some (h, rows) \<Rightarrow> rows)"

definition summary_rows :: "world \<Rightarrow> summary_row list" where
  "summary_rows w = (case summary_csv w of None \<Rightarrow> [] | Some (h, rows) \<Rightarrow> rows)"

definition matching :: "string \<Rightarrow> bool" where
  \<comment> \<open>the line matches the grammar: \<^verbatim>\<open>line_re.search(line)\<close> is not \<^verbatim>\<open>None\<close>\<close>
  "matching line = (search line_re line \<noteq> None)"


definition rows_of :: "trade list \<Rightarrow> string \<Rightarrow> trade list" where
  \<comment> \<open>the per-trade rows whose symbol field is \<open>s\<close>, in row order\<close>
  "rows_of rows s = filter (\<lambda>r. symbol r = s) rows"

definition pnls_of :: "trade list \<Rightarrow> string \<Rightarrow> pyfloat list" where
  \<comment> \<open>the pnl values of the rows of one symbol, in row order\<close>
  "pnls_of rows s = map pnl_usd (rows_of rows s)"

definition fsum :: "pyfloat list \<Rightarrow> pyfloat" where
  \<comment> \<open>the float sum from \<^verbatim>\<open>0.0\<close> on, left to right, each addition rounded once\<close>
  "fsum ps = foldl fadd (Fin False 0) ps"

definition win_rate :: "int \<Rightarrow> int \<Rightarrow> error + pyfloat" where
  \<comment> \<open>100 \<times> hit count / count, in floats\<close>
  "win_rate h n = bind_err (float_mul_int (Fin False 100) h) (\<lambda>x. float_div_int x n)"

definition nearest_hundredth :: "rat \<Rightarrow> rat \<Rightarrow> bool" where
  \<comment> \<open>\<open>q\<close> is a number of two decimal places, and no further than half a hundredth from \<open>x\<close>\<close>
  "nearest_hundredth x q = (q * 100 = of_int \<lfloor>q * 100\<rfloor> \<and> \<bar>q - x\<bar> \<le> 1 / 200)"

definition rounded2 :: "pyfloat \<Rightarrow> pyfloat \<Rightarrow> bool" where
  \<comment> \<open>\<open>r\<close> is \<open>v\<close> rounded to two decimal places: the float of a nearest number of two
      decimal places, which is one of the two hundredths around \<open>v\<close>; an infinity or NaN
      is left as it is\<close>
  "rounded2 v r =
     (case v of
        Fin s x \<Rightarrow>
          (let lo = of_int \<lfloor>x * 100\<rfloor> / 100; hi = (of_int \<lfloor>x * 100\<rfloor> + 1) / 100
           in (nearest_hundredth x lo \<and> r = to_binary64 s lo) \<or>
              (nearest_hundredth x hi \<and> r = to_binary64 s hi))
      | Infty s \<Rightarrow> r = Infty s
      | NaN \<Rightarrow> r = NaN)"

definition pct :: "int \<Rightarrow> int \<Rightarrow> pyfloat" where
  \<comment> \<open>the float of the exact number 100 \<times> h / n\<close>
  "pct h n = to_binary64 False (100 * of_int h / of_int n)"

definition fquot :: "pyfloat \<Rightarrow> int \<Rightarrow> pyfloat" where
  \<comment> \<open>the float of the exact quotient of the value of \<open>v\<close> by \<open>n\<close>\<close>
  "fquot v n =
     (case v of
        Fin s x \<Rightarrow> to_binary64 s (x / of_int n)
      | Infty s \<Rightarrow> Infty s
      | NaN \<Rightarrow> NaN)"

definition fle :: "pyfloat \<Rightarrow> pyfloat \<Rightarrow> bool" where
  \<comment> \<open>\<^verbatim>\<open>a <= b\<close>\<close>
  "fle a b = (a \<noteq> NaN \<and> b \<noteq> NaN \<and> \<not> flt b a)"

definition feq :: "pyfloat \<Rightarrow> pyfloat \<Rightarrow> bool" where
  \<comment> \<open>\<^verbatim>\<open>a == b\<close>: equal values; \<^verbatim>\<open>0.0 == -0.0\<close> holds\<close>
  "feq a b = (fle a b \<and> fle b a)"

subsection \<open>Sample logs\<close>

definition world_of :: "string list \<Rightarrow> world" where
  \<comment> \<open>a fresh directory holding a log with these lines\<close>
  "world_of lines =
     \<lparr>log_file = Some lines, out_dir = Absent, per_trade_csv = None, summary_csv = None,
      stdout = []\<rparr>"

definition sample_lines :: "string list" where
  "sample_lines =
     [''2024/01/01 08:59:00 SIM HIT: MSFT | PnL=$3.00 | Capital=$10000.00 | Trades: 0/10'',
      ''2024/01/01 09:00:00 SIM HIT: AAPL | PnL=$12.50 | Capital=$10012.50 | Trades: 1/10'',
      ''simulation warming up'',
      ''2024/01/01 09:01:00 SIM MISS: AAPL | PnL=$-5.00 | Capital=$10007.50 | Trades: 2/10'']"

definition sample_trades :: "trade list" where
  "sample_trades =
     [\<lparr>timestamp = ''2024/01/01 08:59:00'', status = ''HIT'', symbol = ''MSFT'',
       pnl_usd = Fin False 3, capital_usd = Fin False 10000,
       trade_index = 0, total_trades = 10\<rparr>,
      \<lparr>timestamp = ''2024/01/01 09:00:00'', status = ''HIT'', symbol = ''AAPL'',
       pnl_usd = Fin False (25 / 2), capital_usd = Fin False (20025 / 2),
       trade_index = 1, total_trades = 10\<rparr>,
      \<lparr>timestamp = ''2024/01/01 09:01:00'', status = ''MISS'', symbol = ''AAPL'',
       pnl_usd = Fin True 5, capital_usd = Fin False (20015 / 2),
       trade_index = 2, total_trades = 10\<rparr>]"

definition sample_aapl :: summary_row where
  "sample_aapl =
     \<lparr>s_symbol = ''AAPL'', s_hits = 1, s_misses = 1, s_total = 2,
      win_rate_pct = Fin False 50, avg_pnl_usd = Fin False (15 / 4),
      sum_pnl_usd = Fin False (15 / 2), max_pnl_usd = Fin False (25 / 2),
      min_pnl_usd = Fin True 5\<rparr>"

definition sample_msft :: summary_row where
  "sample_msft =
     \<lparr>s_symbol = ''MSFT'', s_hits = 1, s_misses = 0, s_total = 1,
      win_rate_pct = Fin False 100, avg_pnl_usd = Fin False 3,
      sum_pnl_usd = Fin False 3, max_pnl_usd = Fin False 3,
      min_pnl_usd = Fin False 3\<rparr>"

definition sample_summary :: "summary_row list" where
  "sample_summary = [sample_aapl, sample_msft]"

definition sample_result :: world where
  "sample_result =
     \<lparr>log_file = Some sample_lines, out_dir = Dir,
      per_trade_csv = Some (per_trade_header, sample_trades),
      summary_csv = Some (summary_header, sample_summary),
      stdout = [per_trade_path, summary_path]\<rparr>"

definition two_dots_line :: string where
  "two_dots_line =
     ''2024/01/01 09:00:00 SIM HIT: AAPL | PnL=$1.2.3 | Capital=$100 | Trades: 1/10''"

definition blank_symbol_line :: string where
  "blank_symbol_line =
     ''2024/01/01 09:00:00 SIM HIT:   | PnL=$1 | Capital=$100 | Trades: 1/10''"

definition blank_symbol_trade :: trade where
  "blank_symbol_trade =
     \<lparr>timestamp = ''2024/01/01 09:00:00'', status = ''HIT'', symbol = [],
      pnl_usd = Fin False 1, capital_usd = Fin False 100,
      trade_index = 1, total_trades = 10\<rparr>"

definition trade_at :: "pyfloat \<Rightarrow> trade" where
  \<comment> \<open>a record of symbol \<^verbatim>\<open>X\<close> with the given pnl\<close>
  "trade_at p =
     \<lparr>timestamp = ''2024/01/01 09:00:00'', status = ''HIT'', symbol = ''X'',
      pnl_usd = p, capital_usd = Fin False 0, trade_index = 1, total_trades = 3\<rparr>"

definition line_at :: "string \<Rightarrow> string" where
  \<comment> \<open>the log line of such a record, with the given PnL token\<close>
  "line_at tok =
     ''2024/01/01 09:00:00 HIT: X | PnL=$'' @ tok @ '' | Capital=$0 | Trades: 1/3''"

definition swing :: "trade list" where
  \<comment> \<open>pnl \<^verbatim>\<open>1e16\<close>, \<^verbatim>\<open>1.0\<close>, \<^verbatim>\<open>-1e16\<close>\<close>
  "swing =
     [trade_at (Fin False 10000000000000000), trade_at (Fin False 1),
      trade_at (Fin True 10000000000000000)]"

definition swing_permuted :: "trade list" where
  "swing_permuted =
     [trade_at (Fin False 10000000000000000), trade_at (Fin True 10000000000000000),
      trade_at (Fin False 1)]"

definition idle_tallies :: tallies where
  \<comment> \<open>dictionaries in which \<^verbatim>\<open>X\<close> has no count, as the loop never leaves them\<close>
  "idle_tallies = no_tallies\<lparr>max_p := [(''X'', Fin False 1)], min_p := [(''X'', Fin False 1)]\<rparr>"

definition idle_row :: summary_row where
  "idle_row =
     \<lparr>s_symbol = ''X'', s_hits = 0, s_misses = 0, s_total = 0,
      win_rate_pct = Fin False 0, avg_pnl_usd = Fin False 0, sum_pnl_usd = Fin False 0,
      max_pnl_usd = Fin False 1, min_pnl_usd = Fin False 1\<rparr>"

definition mixed_lines :: "string list" where
  \<comment> \<open>a log whose figures do not come out in two decimals\<close>
  "mixed_lines =
     [''2024/01/01 08:59:00 SIM HIT: MSFT | PnL=$3.14159 | Capital=$10003.14 | Trades: 1/10'',
      ''2024/01/01 09:00:00 SIM HIT: AAPL | PnL=$12.50 | Capital=$10015.64 | Trades: 2/10'',
      ''simulation warming up'',
      ''2024/01/01 09:01:00 SIM MISS: AAPL | PnL=$-5.00 | Capital=$10010.64 | Trades: 3/10'',
      ''2024/01/01 09:02:00 SIM HIT: AAPL | PnL=$2.505 | Capital=$10013.145 | Trades: 4/10'']"

definition mixed_trades :: "trade list" where
  "mixed_trades =
     [\<lparr>timestamp = ''2024/01/01 08:59:00'', status = ''HIT'', symbol = ''MSFT'',
       pnl_usd = Fin False (3537115888337719 / 1125899906842624),
       capital_usd = Fin False (687410546516951 / 68719476736),
       trade_index = 1, total_trades = 10\<rparr>,
      \<lparr>timestamp = ''2024/01/01 09:00:00'', status = ''HIT'', symbol = ''AAPL'',
       pnl_usd = Fin False (25 / 2),
       capital_usd = Fin False (688269539976151 / 68719476736),
       trade_index = 2, total_trades = 10\<rparr>,
      \<lparr>timestamp = ''2024/01/01 09:01:00'', status = ''MISS'', symbol = ''AAPL'',
       pnl_usd = Fin True 5,
       capital_usd = Fin False (687925942592471 / 68719476736),
       trade_index = 3, total_trades = 10\<rparr>,
      \<lparr>timestamp = ''2024/01/01 09:02:00'', status = ''HIT'', symbol = ''AAPL'',
       pnl_usd = Fin False (2820379266640773 / 1125899906842624),
       capital_usd = Fin False (2752392339526779 / 274877906944),
       trade_index = 4, total_trades = 10\<rparr>]"

definition mixed_aapl :: summary_row where
  \<comment> \<open>2 hits of 3: \<^verbatim>\<open>66.67\<close>, \<^verbatim>\<open>3.33\<close>, \<^verbatim>\<open>10.0\<close>, \<^verbatim>\<open>12.5\<close>, \<^verbatim>\<open>-5.0\<close>\<close>
  "mixed_aapl =
     \<lparr>s_symbol = ''AAPL'', s_hits = 2, s_misses = 1, s_total = 3,
      win_rate_pct = Fin False (4691484174324859 / 70368744177664),
      avg_pnl_usd = Fin False (1874623344892969 / 562949953421312),
      sum_pnl_usd = Fin False 10, max_pnl_usd = Fin False (25 / 2),
      min_pnl_usd = Fin True 5\<rparr>"

definition mixed_msft :: summary_row where
  \<comment> \<open>1 hit of 1: \<^verbatim>\<open>100.0\<close>, and \<^verbatim>\<open>3.14\<close> four times\<close>
  "mixed_msft =
     \<lparr>s_symbol = ''MSFT'', s_hits = 1, s_misses = 0, s_total = 1,
      win_rate_pct = Fin False 100,
      avg_pnl_usd = Fin False (7070651414971679 / 2251799813685248),
      sum_pnl_usd = Fin False (7070651414971679 / 2251799813685248),
      max_pnl_usd = Fin False (7070651414971679 / 2251799813685248),
      min_pnl_usd = Fin False (7070651414971679 / 2251799813685248)\<rparr>"

definition mixed_result :: world where
  "mixed_result =
     \<lparr>log_file = Some mixed_lines, out_dir = Dir,
      per_trade_csv = Some (per_trade_header, mixed_trades),
      summary_csv = Some (summary_header, [mixed_aapl, mixed_msft]),
      stdout = [per_trade_path, summary_path]\<rparr>"

definition good_line :: string where
  "good_line =
     ''2024/01/01 08:59:00 SIM HIT: MSFT | PnL=$3.00 | Capital=$10000.00 | Trades: 0/10''"

definition good_trade :: trade where
  "good_trade =
     \<lparr>timestamp = ''2024/01/01 08:59:00'', status = ''HIT'', symbol = ''MSFT'',
      pnl_usd = Fin False 3, capital_usd = Fin False 10000,
      trade_index = 0, total_trades = 10\<rparr>"

definition no_log :: world where
  \<comment> \<open>a fresh directory without \<^verbatim>\<open>sim2500.log\<close>\<close>
  "no_log =
     \<lparr>log_file = None, out_dir = Absent, per_trade_csv = None, summary_csv = None,
      stdout = []\<rparr>"

section \<open>Properties\<close>

subsection \<open>Runs on the sample logs\<close>

lemma main_sample: "main (world_of sample_lines) = (None, sample_result)"
  by code_simp

lemma matching_two_dots: "matching two_dots_line"
  by code_simp

lemma groups_two_dots:
  "search line_re two_dots_line =
     Some [''2024/01/01 09:00:00'', ''HIT:'', ''AAPL'', ''1.2.3'', ''100'', ''1'', ''10'']"
  "py_float ''1.2.3'' = Inl ValueError"
  by code_simp+

lemma parse_two_dots: "parse_line two_dots_line = Inl ValueError"
  by code_simp

lemma main_two_dots:
  "main (world_of [two_dots_line]) =
     (Some ValueError, (world_of [two_dots_line])\<lparr>out_dir := Dir\<rparr>)"
  by code_simp

lemma parse_blank_symbol: "parse_line blank_symbol_line = Inr (Some blank_symbol_trade)"
  by code_simp

lemma main_blank_symbol:
  "map s_symbol (summary_rows (snd (main (world_of [blank_symbol_line])))) = [[]]"
  by code_simp

subsection \<open>A missing log\<close>

text \<open>
  C8. If the input file is missing or unreadable, the run ends with the error and writes
  neither output table: both files are as they were before the run, and nothing is
  printed.
\<close>

theorem missing_log_is_fatal:
  assumes "log_file w = None"
  shows "fst (main w) = Some OSError \<and>
         per_trade_csv (snd (main w)) = per_trade_csv w \<and>
         summary_csv (snd (main w)) = summary_csv w \<and>
         stdout (snd (main w)) = stdout w"
  using assms by (simp add: main_def split: entry.splits)

theorem missing_log_is_fatal_witness:
  "log_file no_log = None \<and>
   fst (main no_log) = Some OSError \<and>
   per_trade_csv (snd (main no_log)) = None \<and>
   summary_csv (snd (main no_log)) = None \<and>
   stdout (snd (main no_log)) = []"
proof -
  have h: "log_file no_log = None"
    by (simp add: no_log_def)
  from missing_log_is_fatal [OF h] show ?thesis
    by (simp add: no_log_def)
qed

subsection \<open>A matched line that stops the run\<close>

text \<open>
  C1. On every line the pattern matches, the conversions of the PnL, Capital, index and
  total tokens succeed, so that no matched line ends the run with a conversion error.
  The script breaks this: the class \<^verbatim>\<open>[0-9.]+\<close> lets a token with two dots through, and
  \<^verbatim>\<open>float\<close> raises \<^verbatim>\<open>ValueError\<close> on it. The line below matches, its conversion fails,
  and the run ends with that exception before a table is written.
\<close>

theorem two_dots_line_aborts:
  "matching two_dots_line \<and>
   search line_re two_dots_line =
     Some [''2024/01/01 09:00:00'', ''HIT:'', ''AAPL'', ''1.2.3'', ''100'', ''1'', ''10''] \<and>
   py_float ''1.2.3'' = Inl ValueError \<and>
   parse_line two_dots_line = Inl ValueError \<and>
   fst (main (world_of [two_dots_line])) = Some ValueError \<and>
   per_trade_csv (snd (main (world_of [two_dots_line]))) = None"
  by (simp add: matching_two_dots groups_two_dots parse_two_dots main_two_dots)
     (simp add: world_of_def)

subsection \<open>A symbol of blanks only\<close>

text \<open>
  C10. There is a line whose symbol field, between the marker and the next bar, is white
  space only, which the parser still turns into a record; the record's symbol is the
  empty string, and the empty string is a key of the summary table.
\<close>

theorem blank_symbol_is_a_key:
  "blank_symbol_line =
     ''2024/01/01 09:00:00 SIM HIT:'' @ ''   '' @ ''| PnL=$1 | Capital=$100 | Trades: 1/10'' \<and>
   list_all is_space ''   '' \<and>
   parse_line blank_symbol_line = Inr (Some blank_symbol_trade) \<and>
   symbol blank_symbol_trade = [] \<and>
   map s_symbol (summary_rows (snd (main (world_of [blank_symbol_line])))) = [[]]"
  by (simp add: parse_blank_symbol main_blank_symbol)
     (simp add: blank_symbol_line_def blank_symbol_trade_def is_space_def)

subsection \<open>The aggregation loop, row by row\<close>

lemma cnt_fold_row:
  "cnt (fold_row a r) = AList.update (symbol r) (dd_int (cnt a) (symbol r) + 1) (cnt a)"
  by (simp add: fold_row_def Let_def split: option.splits)

lemma sum_p_fold_row:
  "sum_p (fold_row a r) =
     AList.update (symbol r) (fadd (dd_float (sum_p a) (symbol r)) (pnl_usd r)) (sum_p a)"
  by (simp add: fold_row_def Let_def split: option.splits)

lemma hits_fold_row:
  "hits (fold_row a r) =
     (if status r = ''HIT'' then AList.update (symbol r) (dd_int (hits a) (symbol r) + 1) (hits a)
      else hits a)"
  by (simp add: fold_row_def Let_def split: option.splits)

lemma miss_fold_row:
  "miss (fold_row a r) =
     (if status r = ''HIT'' then miss a
      else AList.update (symbol r) (dd_int (miss a) (symbol r) + 1) (miss a))"
  by (simp add: fold_row_def Let_def split: option.splits)

lemma max_p_fold_row:
  "max_p (fold_row a r) =
     (case map_of (max_p a) (symbol r) of
        None \<Rightarrow> AList.update (symbol r) (pnl_usd r) (max_p a)
      | Some mx \<Rightarrow> if flt mx (pnl_usd r) then AList.update (symbol r) (pnl_usd r) (max_p a)
                   else max_p a)"
  by (simp add: fold_row_def Let_def split: option.splits)

lemma min_p_fold_row:
  "min_p (fold_row a r) =
     (case map_of (min_p a) (symbol r) of
        None \<Rightarrow> AList.update (symbol r) (pnl_usd r) (min_p a)
      | Some mn \<Rightarrow> if flt (pnl_usd r) mn then AList.update (symbol r) (pnl_usd r) (min_p a)
                   else min_p a)"
  by (simp add: fold_row_def Let_def split: option.splits)

lemma aggregate_Nil: "aggregate [] = no_tallies"
  by (simp add: aggregate_def)

lemma aggregate_snoc: "aggregate (rows @ [r]) = fold_row (aggregate rows) r"
  by (simp add: aggregate_def)

lemma cnt_aggregate:
  "map_of (cnt (aggregate rows)) s =
     (if rows_of rows s = [] then None else Some (int (length (rows_of rows s))))"
proof (induction rows rule: rev_induct)
  case Nil
  show ?case by (simp add: aggregate_Nil no_tallies_def rows_of_def)
next
  case (snoc r rows)
  then show ?case
    by (auto simp add: aggregate_snoc cnt_fold_row update_conv' dd_int_def rows_of_def)
qed

lemma sum_p_aggregate:
  "map_of (sum_p (aggregate rows)) s =
     (if rows_of rows s = [] then None else Some (fsum (pnls_of rows s)))"
proof (induction rows rule: rev_induct)
  case Nil
  show ?case by (simp add: aggregate_Nil no_tallies_def rows_of_def)
next
  case (snoc r rows)
  then show ?case
    by (auto simp add: aggregate_snoc sum_p_fold_row update_conv' dd_float_def rows_of_def
        pnls_of_def fsum_def)
qed

lemma hits_aggregate:
  "dd_int (hits (aggregate rows)) s =
     int (length (filter (\<lambda>r. status r = ''HIT'') (rows_of rows s)))"
proof (induction rows rule: rev_induct)
  case Nil
  show ?case by (simp add: aggregate_Nil no_tallies_def dd_int_def rows_of_def)
next
  case (snoc r rows)
  then show ?case
    by (auto simp add: aggregate_snoc hits_fold_row update_conv' dd_int_def rows_of_def)
qed

lemma miss_aggregate:
  "dd_int (miss (aggregate rows)) s =
     int (length (filter (\<lambda>r. status r \<noteq> ''HIT'') (rows_of rows s)))"
proof (induction rows rule: rev_induct)
  case Nil
  show ?case by (simp add: aggregate_Nil no_tallies_def dd_int_def rows_of_def)
next
  case (snoc r rows)
  then show ?case
    by (auto simp add: aggregate_snoc miss_fold_row update_conv' dd_int_def rows_of_def)
qed

lemma flt_irrefl: "\<not> flt a a"
  by (cases a) (auto simp add: sval_def)

lemma flt_trans: "flt a b \<Longrightarrow> flt b c \<Longrightarrow> flt a c"
  by (cases a; cases b; cases c) (auto simp add: sval_def split: if_splits)

lemma max_p_aggregate:
  "case map_of (max_p (aggregate rows)) s of
     None \<Rightarrow> rows_of rows s = []
   | Some mx \<Rightarrow> mx \<in> set (pnls_of rows s) \<and> (\<forall>p \<in> set (pnls_of rows s). \<not> flt mx p)"
proof (induction rows rule: rev_induct)
  case Nil
  show ?case by (simp add: aggregate_Nil no_tallies_def rows_of_def)
next
  case (snoc r rows)
  show ?case
  proof (cases "symbol r = s")
    case False
    with snoc show ?thesis
      by (simp add: aggregate_snoc max_p_fold_row update_conv' rows_of_def pnls_of_def
          split: option.splits)
  next
    case True
    show ?thesis
    proof (cases "map_of (max_p (aggregate rows)) s")
      case None
      with snoc have "rows_of rows s = []" by simp
      with None True show ?thesis
        by (simp add: aggregate_snoc max_p_fold_row update_conv' rows_of_def pnls_of_def
            flt_irrefl)
    next
      case (Some mx)
      with snoc have mx: "mx \<in> set (pnls_of rows s)" "\<forall>p \<in> set (pnls_of rows s). \<not> flt mx p"
        by simp_all
      show ?thesis
      proof (cases "flt mx (pnl_usd r)")
        case lt: True
        have "\<not> flt (pnl_usd r) p" if "p \<in> set (pnls_of rows s)" for p
          using mx(2) that lt flt_trans by blast
        with Some True lt show ?thesis
          by (simp add: aggregate_snoc max_p_fold_row update_conv' rows_of_def pnls_of_def
              flt_irrefl)
      next
        case ge: False
        with Some True mx show ?thesis
          by (simp add: aggregate_snoc max_p_fold_row update_conv' rows_of_def pnls_of_def)
      qed
    qed
  qed
qed

lemma min_p_aggregate:
  "case map_of (min_p (aggregate rows)) s of
     None \<Rightarrow> rows_of rows s = []
   | Some mn \<Rightarrow> mn \<in> set (pnls_of rows s) \<and> (\<forall>p \<in> set (pnls_of rows s). \<not> flt p mn)"
proof (induction rows rule: rev_induct)
  case Nil
  show ?case by (simp add: aggregate_Nil no_tallies_def rows_of_def)
next
  case (snoc r rows)
  show ?case
  proof (cases "symbol r = s")
    case False
    with snoc show ?thesis
      by (simp add: aggregate_snoc min_p_fold_row update_conv' rows_of_def pnls_of_def
          split: option.splits)
  next
    case True
    show ?thesis
    proof (cases "map_of (min_p (aggregate rows)) s")
      case None
      with snoc have "rows_of rows s = []" by simp
      with None True show ?thesis
        by (simp add: aggregate_snoc min_p_fold_row update_conv' rows_of_def pnls_of_def
            flt_irrefl)
    next
      case (Some mn)
      with snoc have mn: "mn \<in> set (pnls_of rows s)" "\<forall>p \<in> set (pnls_of rows s). \<not> flt p mn"
        by simp_all
      show ?thesis
      proof (cases "flt (pnl_usd r) mn")
        case lt: True
        have "\<not> flt p (pnl_usd r)" if "p \<in> set (pnls_of rows s)" for p
          using mn(2) that lt flt_trans by blast
        with Some True lt show ?thesis
          by (simp add: aggregate_snoc min_p_fold_row update_conv' rows_of_def pnls_of_def
              flt_irrefl)
      next
        case ge: False
        with Some True mn show ?thesis
          by (simp add: aggregate_snoc min_p_fold_row update_conv' rows_of_def pnls_of_def)
      qed
    qed
  qed
qed

lemma keys_aggregate:
  "distinct (map fst (cnt (aggregate rows))) \<and>
   set (map fst (cnt (aggregate rows))) = symbol ` set rows"
proof (induction rows rule: rev_induct)
  case Nil
  show ?case by (simp add: aggregate_Nil no_tallies_def)
next
  case (snoc r rows)
  then show ?case
    by (auto simp add: aggregate_snoc cnt_fold_row distinct_update dom_update)
qed

lemma write_summary_None:
  "write_summary a syms out = (None, rows) \<Longrightarrow>
     \<exists>rs. rows = out @ rs \<and> map (summary_line a) syms = map Inr rs"
proof (induction syms arbitrary: out)
  case Nil
  then show ?case by simp
next
  case (Cons s syms)
  then obtain r where r: "summary_line a s = Inr r"
    and rest: "write_summary a syms (out @ [r]) = (None, rows)"
    by (auto split: sum.splits)
  from Cons.IH [OF rest] obtain rs where "rows = (out @ [r]) @ rs"
    "map (summary_line a) syms = map Inr rs" by blast
  with r show ?case by (intro exI [of _ "r # rs"]) simp
qed

lemma main_None:
  assumes "fst (main w) = None"
  shows "\<exists>lines rows srows.
           log_file w = Some lines \<and> parse_lines lines [] = Inr rows \<and>
           write_summary (aggregate rows) (sort (map fst (cnt (aggregate rows)))) [] = (None, srows) \<and>
           per_trade_csv (snd (main w)) = Some (per_trade_header, rows) \<and>
           summary_csv (snd (main w)) = Some (summary_header, srows) \<and>
           stdout (snd (main w)) = stdout w @ [per_trade_path, summary_path]"
  using assms
  by (auto simp add: main_def Let_def split: entry.splits option.splits sum.splits prod.splits)

subsection \<open>The parse loop, line by line\<close>

lemma parse_line_None_iff: "parse_line l = Inr None \<longleftrightarrow> \<not> matching l"
  by (auto simp add: parse_line_def matching_def bind_err_def
      split: option.splits list.splits sum.splits)

lemma parse_lines_rows:
  "parse_lines ls acc = Inr rows \<Longrightarrow>
     \<exists>rs. rows = acc @ rs \<and> map parse_line (filter matching ls) = map (\<lambda>r. Inr (Some r)) rs"
proof (induction ls arbitrary: acc)
  case Nil
  then show ?case by simp
next
  case (Cons l ls)
  show ?case
  proof (cases "parse_line l")
    case (Inl e)
    with Cons.prems show ?thesis by simp
  next
    case (Inr opt)
    show ?thesis
    proof (cases opt)
      case None
      with Inr have "\<not> matching l" by (simp add: parse_line_None_iff)
      moreover from Cons.prems Inr None have "parse_lines ls acc = Inr rows" by simp
      ultimately show ?thesis using Cons.IH by simp
    next
      case (Some r)
      with Inr have ml: "matching l" using parse_line_None_iff [of l] by auto
      from Cons.prems Inr Some have "parse_lines ls (acc @ [r]) = Inr rows" by simp
      from Cons.IH [OF this] obtain rs where "rows = (acc @ [r]) @ rs"
        "map parse_line (filter matching ls) = map (\<lambda>r. Inr (Some r)) rs" by blast
      with ml Inr Some show ?thesis by (intro exI [of _ "r # rs"]) simp
    qed
  qed
qed

lemma to_binary64_not_NaN: "to_binary64 sg x \<noteq> NaN"
  by (simp add: to_binary64_def Let_def)

lemma py_float_not_NaN: "py_float s = Inr f \<Longrightarrow> f \<noteq> NaN"
  by (auto simp add: py_float_def Let_def to_binary64_not_NaN split: if_splits)

lemma parse_line_pnl: "parse_line l = Inr (Some r) \<Longrightarrow> pnl_usd r \<noteq> NaN"
  by (auto simp add: parse_line_def bind_err_def py_float_not_NaN
      split: option.splits list.splits sum.splits)

lemma parsed_pnl:
  assumes "map parse_line ms = map (\<lambda>r. Inr (Some r)) rs" and "r \<in> set rs"
  shows "pnl_usd r \<noteq> NaN"
proof -
  from assms(2) obtain i where i: "i < length rs" "rs ! i = r"
    by (auto simp add: in_set_conv_nth)
  from assms(1) have "length ms = length rs"
    by (metis length_map)
  with i assms(1) have "parse_line (ms ! i) = Inr (Some r)"
    by (metis nth_map)
  then show ?thesis by (rule parse_line_pnl)
qed

subsection \<open>A run that completes\<close>

lemma summary_line_fields:
  assumes "summary_line a s = Inr sr"
  shows "s_symbol sr = s" "s_hits sr = dd_int (hits a) s" "s_misses sr = dd_int (miss a) s"
    "s_total sr = dd_int (cnt a) s"
    "sum_pnl_usd sr = py_round2 (dd_float (sum_p a) s)"
    "\<exists>mx. map_of (max_p a) s = Some mx \<and> max_pnl_usd sr = py_round2 mx"
    "\<exists>mn. map_of (min_p a) s = Some mn \<and> min_pnl_usd sr = py_round2 mn"
    "dd_int (cnt a) s \<noteq> 0 \<Longrightarrow>
       \<exists>wr. win_rate (dd_int (hits a) s) (dd_int (cnt a) s) = Inr wr \<and>
            win_rate_pct sr = py_round2 wr"
    "dd_int (cnt a) s \<noteq> 0 \<Longrightarrow>
       \<exists>avg. float_div_int (dd_float (sum_p a) s) (dd_int (cnt a) s) = Inr avg \<and>
             avg_pnl_usd sr = py_round2 avg"
    "dd_int (cnt a) s = 0 \<Longrightarrow> win_rate_pct sr = Fin False 0 \<and> avg_pnl_usd sr = Fin False 0"
  using assms
  by (auto simp add: summary_line_def Let_def bind_err_def dict_get_def win_rate_def
      to_binary64_def round_half_even_def split: sum.splits option.splits if_splits)

lemma map_Inr_member:
  assumes "map f xs = map Inr ys" and "y \<in> set ys"
  shows "\<exists>x \<in> set xs. f x = Inr y"
proof -
  from assms(2) obtain i where i: "i < length ys" "ys ! i = y"
    by (auto simp add: in_set_conv_nth)
  from assms(1) have len: "length xs = length ys"
    by (metis length_map)
  with i assms(1) have "f (xs ! i) = Inr y"
    by (metis nth_map)
  with i len show ?thesis by (metis nth_mem)
qed

lemma run_facts:
  assumes "fst (main w) = None"
  shows "\<exists>lines. log_file w = Some lines \<and>
           map parse_line (filter matching lines) =
             map (\<lambda>r. Inr (Some r)) (per_trade_rows (snd (main w))) \<and>
           map (summary_line (aggregate (per_trade_rows (snd (main w)))))
               (sort (map fst (cnt (aggregate (per_trade_rows (snd (main w))))))) =
             map Inr (summary_rows (snd (main w))) \<and>
           stdout (snd (main w)) = stdout w @ [per_trade_path, summary_path]"
proof -
  from main_None [OF assms] obtain lines rows srows where
    l: "log_file w = Some lines" and p: "parse_lines lines [] = Inr rows" and
    ws: "write_summary (aggregate rows) (sort (map fst (cnt (aggregate rows)))) [] = (None, srows)" and
    pt: "per_trade_csv (snd (main w)) = Some (per_trade_header, rows)" and
    sm: "summary_csv (snd (main w)) = Some (summary_header, srows)" and
    out: "stdout (snd (main w)) = stdout w @ [per_trade_path, summary_path]"
    by blast
  from parse_lines_rows [OF p]
  have "map parse_line (filter matching lines) = map (\<lambda>r. Inr (Some r)) rows" by simp
  moreover from write_summary_None [OF ws]
  have "map (summary_line (aggregate rows)) (sort (map fst (cnt (aggregate rows)))) = map Inr srows"
    by simp
  ultimately show ?thesis using l pt sm out
    by (simp add: per_trade_rows_def summary_rows_def)
qed

lemma summary_row_line:
  assumes "fst (main w) = None" and "sr \<in> set (summary_rows (snd (main w)))"
  shows "s_symbol sr \<in> symbol ` set (per_trade_rows (snd (main w))) \<and>
         summary_line (aggregate (per_trade_rows (snd (main w)))) (s_symbol sr) = Inr sr"
proof -
  let ?P = "per_trade_rows (snd (main w))"
  from run_facts [OF assms(1)]
  have "map (summary_line (aggregate ?P)) (sort (map fst (cnt (aggregate ?P)))) =
          map Inr (summary_rows (snd (main w)))" by blast
  from map_Inr_member [OF this assms(2)] obtain s where
    s: "s \<in> set (sort (map fst (cnt (aggregate ?P))))" "summary_line (aggregate ?P) s = Inr sr"
    by blast
  from s(2) have "s_symbol sr = s" by (rule summary_line_fields(1))
  moreover from s(1) have "s \<in> symbol ` set ?P"
    using keys_aggregate [of ?P] by simp
  ultimately show ?thesis using s(2) by simp
qed

lemma sample_run:
  "fst (main (world_of sample_lines)) = None"
  "log_file (world_of sample_lines) = Some sample_lines"
  "per_trade_rows (snd (main (world_of sample_lines))) = sample_trades"
  "summary_rows (snd (main (world_of sample_lines))) = [sample_aapl, sample_msft]"
  "stdout (snd (main (world_of sample_lines))) = [per_trade_path, summary_path]"
  by (simp_all add: main_sample sample_result_def per_trade_rows_def summary_rows_def
      sample_summary_def)
     (simp add: world_of_def)

subsection \<open>The per-trade table\<close>

lemma completed_run_rows:
  assumes "fst (main w) = None" and "log_file w = Some lines"
  shows "length (per_trade_rows (snd (main w))) = length (filter matching lines) \<and>
         map parse_line (filter matching lines) =
           map (\<lambda>r. Inr (Some r)) (per_trade_rows (snd (main w))) \<and>
         stdout (snd (main w)) = stdout w @ [per_trade_path, summary_path]"
proof -
  from run_facts [OF assms(1)] assms(2)
  have rows: "map parse_line (filter matching lines) =
                map (\<lambda>r. Inr (Some r)) (per_trade_rows (snd (main w)))"
    and out: "stdout (snd (main w)) = stdout w @ [per_trade_path, summary_path]"
    by auto
  from rows have "length (filter matching lines) = length (per_trade_rows (snd (main w)))"
    by (metis length_map)
  with rows out show ?thesis by simp
qed

lemma good_and_two_dots_match:
  "filter matching [good_line, two_dots_line] = [good_line, two_dots_line]"
  by code_simp

lemma parse_good_line: "parse_line good_line = Inr (Some good_trade)"
  by code_simp

lemma main_good_and_two_dots:
  "main (world_of [good_line, two_dots_line]) =
     (Some ValueError, (world_of [good_line, two_dots_line])\<lparr>out_dir := Dir\<rparr>)"
  by code_simp

text \<open>
  C5. For every input file the per-trade table has exactly one row for each line that
  matches the grammar, in the order of the log, and no row for the other lines. The
  script breaks this through the defect of C1: in the log below both lines match and the
  first converts to a record, but the token \<^verbatim>\<open>1.2.3\<close> of the second makes \<^verbatim>\<open>float\<close>
  raise, the run ends with \<^verbatim>\<open>ValueError\<close> before the table is opened, and neither
  matching line has a row. (On every run that completes the rows are the records of the
  matching lines in log order, \<open>completed_run_rows\<close>.)
\<close>

theorem good_line_lost_with_two_dots:
  "filter matching [good_line, two_dots_line] = [good_line, two_dots_line] \<and>
   parse_line good_line = Inr (Some good_trade) \<and>
   parse_line two_dots_line = Inl ValueError \<and>
   fst (main (world_of [good_line, two_dots_line])) = Some ValueError \<and>
   per_trade_csv (snd (main (world_of [good_line, two_dots_line]))) = None \<and>
   per_trade_rows (snd (main (world_of [good_line, two_dots_line]))) = []"
proof -
  have "per_trade_csv (snd (main (world_of [good_line, two_dots_line]))) = None"
    by (simp add: main_good_and_two_dots) (simp add: world_of_def)
  moreover from this
  have "per_trade_rows (snd (main (world_of [good_line, two_dots_line]))) = []"
    by (simp add: per_trade_rows_def)
  moreover have "fst (main (world_of [good_line, two_dots_line])) = Some ValueError"
    by (simp add: main_good_and_two_dots)
  ultimately show ?thesis
    using good_and_two_dots_match parse_good_line parse_two_dots by blast
qed

subsection \<open>The rows of the summary\<close>

text \<open>
  C7. When the run completes, the summary table has one row for each distinct symbol of
  the per-trade rows and no other row, and its rows are in ascending lexicographic order
  of the symbol; the keys of the count dictionary are exactly the symbols seen.
\<close>

theorem summary_symbols_sorted:
  assumes "fst (main w) = None"
  shows "sorted (map s_symbol (summary_rows (snd (main w)))) \<and>
         distinct (map s_symbol (summary_rows (snd (main w)))) \<and>
         set (map s_symbol (summary_rows (snd (main w)))) =
           symbol ` set (per_trade_rows (snd (main w))) \<and>
         set (map fst (cnt (aggregate (per_trade_rows (snd (main w)))))) =
           symbol ` set (per_trade_rows (snd (main w)))"
proof -
  let ?P = "per_trade_rows (snd (main w))"
  let ?S = "summary_rows (snd (main w))"
  let ?ks = "sort (map fst (cnt (aggregate ?P)))"
  from run_facts [OF assms]
  have eq: "map (summary_line (aggregate ?P)) ?ks = map Inr ?S" by blast
  then have len: "length ?ks = length ?S" by (metis length_map)
  have "map s_symbol ?S = ?ks"
  proof (rule nth_equalityI)
    show "length (map s_symbol ?S) = length ?ks" using len by simp
  next
    fix i assume "i < length (map s_symbol ?S)"
    then have i: "i < length ?S" by simp
    with eq len have "summary_line (aggregate ?P) (?ks ! i) = Inr (?S ! i)"
      by (metis nth_map)
    then have "s_symbol (?S ! i) = ?ks ! i" by (rule summary_line_fields(1))
    with i show "map s_symbol ?S ! i = ?ks ! i" by simp
  qed
  then show ?thesis using keys_aggregate [of ?P] by simp
qed

theorem summary_symbols_sorted_witness:
  "fst (main (world_of sample_lines)) = None \<and>
   map symbol sample_trades = [''MSFT'', ''AAPL'', ''AAPL''] \<and>
   map s_symbol (summary_rows (snd (main (world_of sample_lines)))) = [''AAPL'', ''MSFT''] \<and>
   sorted [''AAPL'', ''MSFT''] \<and> distinct [''AAPL'', ''MSFT''] \<and>
   set [''AAPL'', ''MSFT''] = symbol ` set sample_trades \<and>
   set (map fst (cnt (aggregate sample_trades))) = symbol ` set sample_trades"
proof -
  have k: "map s_symbol (summary_rows (snd (main (world_of sample_lines)))) = [''AAPL'', ''MSFT'']"
    by (simp add: sample_run sample_aapl_def sample_msft_def)
  have t: "map symbol sample_trades = [''MSFT'', ''AAPL'', ''AAPL'']"
    by (simp add: sample_trades_def)
  note c = summary_symbols_sorted [OF sample_run(1), unfolded k sample_run(3)]
  from c k t sample_run(1) show ?thesis by blast
qed

subsection \<open>Hits, misses and totals\<close>

text \<open>
  C3. For every row of the summary, hits plus misses is the total, and the total is the
  number of per-trade rows with the row's symbol. In the dictionaries the same holds
  after any number of rows and for every key: hits plus misses is the count.
\<close>

theorem hits_plus_misses_is_total:
  assumes "fst (main w) = None" and "sr \<in> set (summary_rows (snd (main w)))"
  shows "s_hits sr + s_misses sr = s_total sr \<and>
         s_total sr = int (length (rows_of (per_trade_rows (snd (main w))) (s_symbol sr))) \<and>
         dd_int (hits (aggregate rows)) s + dd_int (miss (aggregate rows)) s =
           dd_int (cnt (aggregate rows)) s"
proof -
  have split: "length (filter (\<lambda>r. status r = ''HIT'') xs) +
               length (filter (\<lambda>r. status r \<noteq> ''HIT'') xs) = length xs" for xs :: "trade list"
    using sum_length_filter_compl [of "\<lambda>r. status r = ''HIT''" xs] by simp
  have count: "dd_int (cnt (aggregate rs)) k = int (length (rows_of rs k))" for rs k
    by (simp add: dd_int_def cnt_aggregate)
  have inv: "dd_int (hits (aggregate rs)) k + dd_int (miss (aggregate rs)) k =
             dd_int (cnt (aggregate rs)) k" for rs k
    using split [of "rows_of rs k"] by (simp add: hits_aggregate miss_aggregate count)
  let ?P = "per_trade_rows (snd (main w))"
  from summary_row_line [OF assms]
  have line: "summary_line (aggregate ?P) (s_symbol sr) = Inr sr" by simp
  from summary_line_fields(2-4) [OF line] inv [of ?P "s_symbol sr"] count [of ?P "s_symbol sr"]
  show ?thesis using inv [of rows s] by simp
qed

theorem hits_plus_misses_is_total_witness:
  "fst (main (world_of sample_lines)) = None \<and>
   sample_aapl \<in> set (summary_rows (snd (main (world_of sample_lines)))) \<and>
   s_hits sample_aapl + s_misses sample_aapl = s_total sample_aapl \<and>
   s_total sample_aapl = 2 \<and> length (rows_of sample_trades ''AAPL'') = 2 \<and>
   dd_int (hits (aggregate sample_trades)) ''AAPL'' +
     dd_int (miss (aggregate sample_trades)) ''AAPL'' =
     dd_int (cnt (aggregate sample_trades)) ''AAPL''"
proof -
  have h: "sample_aapl \<in> set (summary_rows (snd (main (world_of sample_lines))))"
    by (simp add: sample_run)
  from hits_plus_misses_is_total [OF sample_run(1) h, of sample_trades "''AAPL''"]
  show ?thesis
    by (simp add: sample_run) (simp add: sample_aapl_def sample_trades_def rows_of_def)
qed

subsection \<open>What the summary reports\<close>

lemma sum_p_is_fsum: "dd_float (sum_p (aggregate rows)) s = fsum (pnls_of rows s)"
  by (simp add: dd_float_def sum_p_aggregate fsum_def pnls_of_def)

lemma cnt_is_length: "dd_int (cnt (aggregate rows)) s = int (length (rows_of rows s))"
  by (simp add: dd_int_def cnt_aggregate)

lemma idle_line: "summary_line idle_tallies ''X'' = Inr idle_row"
  by code_simp

lemma main_mixed: "main (world_of mixed_lines) = (None, mixed_result)"
  by code_simp

lemma mixed_run:
  "fst (main (world_of mixed_lines)) = None"
  "per_trade_rows (snd (main (world_of mixed_lines))) = mixed_trades"
  "summary_rows (snd (main (world_of mixed_lines))) = [mixed_aapl, mixed_msft]"
  by (simp_all add: main_mixed mixed_result_def per_trade_rows_def summary_rows_def)

lemma mixed_values:
  "pct 2 3 = Fin False (4691249611844267 / 70368744177664)"
  "fsum (pnls_of mixed_trades ''AAPL'') = Fin False (2816157141990113 / 281474976710656)"
  "fquot (Fin False (2816157141990113 / 281474976710656)) 3 =
     Fin False (7509752378640301 / 2251799813685248)"
  by code_simp+

text \<open>Integers below \<open>2\<^sup>5\<^sup>3\<close> are floats, so the operands of the two divisions are exact.\<close>

lemma bitlen_pos: "0 < n \<Longrightarrow> 1 \<le> bitlen n"
proof -
  assume n: "0 < n"
  have "0 \<le> bitlen k" for k
    by (induction k rule: bitlen.induct) (subst bitlen.simps, simp)
  then have "0 \<le> bitlen (n div 2)" .
  with n show ?thesis by (subst bitlen.simps) simp
qed

lemma bitlen_le: "n < 2 ^ k \<Longrightarrow> bitlen n \<le> int k"
proof (induction k arbitrary: n)
  case 0
  then show ?case by (subst bitlen.simps) simp
next
  case (Suc k)
  show ?case
  proof (cases "n \<le> 0")
    case True
    then show ?thesis by (subst bitlen.simps) simp
  next
    case False
    from Suc.prems have "n div 2 < 2 ^ k" by simp
    then have "bitlen (n div 2) \<le> int k" by (rule Suc.IH)
    with False show ?thesis by (subst bitlen.simps) simp
  qed
qed

lemma pow2_neg: "0 \<le> k \<Longrightarrow> pow2 (- k) = 1 / 2 ^ nat k"
  by (cases "k = 0") (simp_all add: pow2_def)

lemma round_half_even_int: "round_half_even (of_int k) = k"
  by (simp add: round_half_even_def)

lemma to_binary64_int:
  assumes "0 \<le> n" and "n < 2 ^ 53"
  shows "to_binary64 sg (of_int n) = Fin sg (of_int n)"
proof (cases "n = 0")
  case True
  then show ?thesis by (simp add: to_binary64_def)
next
  case False
  with assms(1) have pos: "0 < n" by simp
  define e where "e = bitlen n - 1"
  from pos have e0: "0 \<le> e" using bitlen_pos [of n] by (simp add: e_def)
  from assms(2) have e52: "e \<le> 52" using bitlen_le [of n 53] by (simp add: e_def)
  from pos have il: "ilog2 (of_int n) = e"
    by (simp add: ilog2_def e_def)
  define j where "j = nat (52 - e)"
  have pw: "pow2 (e - 52) = 1 / 2 ^ j"
    using pow2_neg [of "52 - e"] e52 by (simp add: j_def)
  have q: "rat_of_int n / pow2 (e - 52) = of_int (n * 2 ^ j)"
    by (simp add: pw)
  have u: "max e (- 1022) - 52 = e - 52"
    using e0 by simp
  have no: "\<not> (971 < e - 52 \<or> (e - 52 = 971 \<and> (2::int) ^ 53 \<le> n * 2 ^ j))"
    using e52 by simp
  from pos have nz: "rat_of_int n \<noteq> 0" by simp
  show ?thesis
    unfolding to_binary64_def il u Let_def q round_half_even_int
    using no nz by (simp add: pw)
qed

lemma int_to_float_exact:
  assumes "0 \<le> n" and "n < 2 ^ 53"
  shows "int_to_float n = Inr (Fin False (of_int n))"
  using assms to_binary64_int [OF assms, of False]
  by (simp add: int_to_float_def)

lemma win_rate_exact:
  assumes "0 \<le> h" and "0 < n" and "n < 2 ^ 53" and "100 * h < 2 ^ 53"
  shows "win_rate h n = Inr (pct h n)"
proof -
  from assms(1,4) have h: "int_to_float h = Inr (Fin False (of_int h))"
    by (intro int_to_float_exact) simp_all
  from assms(2,3) have n: "int_to_float n = Inr (Fin False (of_int n))"
    by (intro int_to_float_exact) simp_all
  have "to_binary64 False (of_int (100 * h)) = Fin False (of_int (100 * h))"
    using assms(1,4) by (intro to_binary64_int) simp_all
  then have m: "to_binary64 False (100 * rat_of_int h) = Fin False (100 * of_int h)"
    by simp
  from assms(2) show ?thesis
    by (simp add: win_rate_def float_mul_int_def float_div_int_def bind_err_def h n m pct_def)
qed

lemma float_div_int_exact:
  assumes "0 < n" and "n < 2 ^ 53"
  shows "float_div_int v n = Inr (fquot v n)"
proof -
  from assms have n: "int_to_float n = Inr (Fin False (of_int n))"
    by (intro int_to_float_exact) simp_all
  from assms(1) show ?thesis
    by (cases v) (simp_all add: float_div_int_def bind_err_def n fquot_def)
qed

text \<open>\<^verbatim>\<open>round(v, 2)\<close> gives the float of a number of two decimals nearest to \<open>v\<close>.\<close>

lemma py_round2_rounded2: "rounded2 v (py_round2 v)"
proof (cases v)
  case (Fin s x)
  define f where "f = \<lfloor>x * 100\<rfloor>"
  define d where "d = x * 100 - of_int f"
  have d: "0 \<le> d" "d < 1"
    unfolding d_def f_def by linarith+
  have below: "of_int f / 100 - x = - (d / 100)"
    by (simp add: d_def diff_divide_distrib)
  have above: "(of_int f + 1) / 100 - x = (1 - d) / 100"
    by (simp add: d_def diff_divide_distrib add_divide_distrib)
  have lo: "nearest_hundredth x (of_int f / 100)" if "d \<le> 1 / 2"
  proof -
    have "\<bar>rat_of_int f / 100 - x\<bar> \<le> 1 / 200"
      unfolding below using that d by simp
    then show ?thesis
      by (simp add: nearest_hundredth_def)
  qed
  have hi: "nearest_hundredth x ((of_int f + 1) / 100)" if "1 / 2 \<le> d"
  proof -
    have "(rat_of_int f + 1) / 100 * 100 = of_int (f + 1)" by simp
    moreover have "\<bar>(rat_of_int f + 1) / 100 - x\<bar> \<le> 1 / 200"
      unfolding above using that d by simp
    ultimately show ?thesis
      unfolding nearest_hundredth_def by (metis floor_of_int)
  qed
  have r: "round_half_even (x * 100) = f \<and> d \<le> 1 / 2 \<or>
           round_half_even (x * 100) = f + 1 \<and> 1 / 2 \<le> d"
    by (auto simp add: round_half_even_def Let_def f_def d_def)
  then show ?thesis
  proof
    assume a: "round_half_even (x * 100) = f \<and> d \<le> 1 / 2"
    with lo Fin show ?thesis
      by (simp add: rounded2_def Let_def f_def [symmetric])
  next
    assume a: "round_half_even (x * 100) = f + 1 \<and> 1 / 2 \<le> d"
    with hi Fin show ?thesis
      by (simp add: rounded2_def Let_def f_def [symmetric])
  qed
next
  case (Infty s)
  then show ?thesis by (simp add: rounded2_def)
next
  case NaN
  then show ?thesis by (simp add: rounded2_def)
qed

text \<open>
  C4. For every row of the summary the count is not zero; the win rate reported is
  100 \<times> hits / count and the average reported is the sum over the count, each computed
  in floats from the exact quotient and then rounded to two decimal places; the sum, the
  maximum and the minimum reported are the accumulated values rounded to two decimal
  places. Rounding to two decimal places gives the float of a number of two decimals no
  further than half a hundredth from the value rounded. It happens in the row only: the
  sum dictionary holds the plain float sum of the symbol's pnl values, added in row
  order. Should a count be zero, win rate and average are \<^verbatim>\<open>0.0\<close>. (The quotients are
  stated for counts below \<open>2\<^sup>5\<^sup>3 / 100\<close>, where hits, count and 100 \<times> hits are floats.)
\<close>

theorem summary_fields_rounded_on_emission:
  assumes "fst (main w) = None" and "sr \<in> set (summary_rows (snd (main w)))"
  shows "s_total sr \<noteq> 0 \<and>
         s_hits sr =
           int (length (filter (\<lambda>r. status r = ''HIT'')
                  (rows_of (per_trade_rows (snd (main w))) (s_symbol sr)))) \<and>
         s_total sr = int (length (rows_of (per_trade_rows (snd (main w))) (s_symbol sr))) \<and>
         (100 * s_total sr < 2 ^ 53 \<longrightarrow>
            rounded2 (pct (s_hits sr) (s_total sr)) (win_rate_pct sr) \<and>
            rounded2 (fquot (fsum (pnls_of (per_trade_rows (snd (main w))) (s_symbol sr)))
                        (s_total sr))
              (avg_pnl_usd sr)) \<and>
         rounded2 (fsum (pnls_of (per_trade_rows (snd (main w))) (s_symbol sr)))
           (sum_pnl_usd sr) \<and>
         (\<exists>mx. map_of (max_p (aggregate (per_trade_rows (snd (main w))))) (s_symbol sr) = Some mx \<and>
               rounded2 mx (max_pnl_usd sr) \<and> max_pnl_usd sr = py_round2 mx) \<and>
         (\<exists>mn. map_of (min_p (aggregate (per_trade_rows (snd (main w))))) (s_symbol sr) = Some mn \<and>
               rounded2 mn (min_pnl_usd sr) \<and> min_pnl_usd sr = py_round2 mn) \<and>
         (\<exists>wr. win_rate (s_hits sr) (s_total sr) = Inr wr \<and> win_rate_pct sr = py_round2 wr) \<and>
         (\<exists>avg. float_div_int (fsum (pnls_of (per_trade_rows (snd (main w))) (s_symbol sr)))
                   (s_total sr) = Inr avg \<and>
                avg_pnl_usd sr = py_round2 avg) \<and>
         sum_pnl_usd sr =
           py_round2 (fsum (pnls_of (per_trade_rows (snd (main w))) (s_symbol sr))) \<and>
         dd_float (sum_p (aggregate rows)) s = fsum (pnls_of rows s) \<and>
         (dd_int (cnt a) k = 0 \<longrightarrow> summary_line a k = Inr r \<longrightarrow>
            win_rate_pct r = Fin False 0 \<and> avg_pnl_usd r = Fin False 0)"
proof -
  let ?P = "per_trade_rows (snd (main w))"
  let ?s = "s_symbol sr"
  from summary_row_line [OF assms]
  have key: "?s \<in> symbol ` set ?P" and line: "summary_line (aggregate ?P) ?s = Inr sr"
    by simp_all
  from key have "rows_of ?P ?s \<noteq> []"
    by (auto simp add: rows_of_def filter_empty_conv)
  then have nz: "dd_int (cnt (aggregate ?P)) ?s \<noteq> 0"
    by (simp add: cnt_is_length)
  note f = summary_line_fields [OF line]
  have tot: "s_total sr = int (length (rows_of ?P ?s))"
    using f(4) by (simp add: cnt_is_length)
  have hit: "s_hits sr = int (length (filter (\<lambda>r. status r = ''HIT'') (rows_of ?P ?s)))"
    using f(2) by (simp add: hits_aggregate)
  from nz f(4) have pos: "0 < s_total sr" using tot by simp
  have hle: "0 \<le> s_hits sr" "s_hits sr \<le> s_total sr"
    using hit tot by simp_all
  obtain wr where wr: "win_rate (s_hits sr) (s_total sr) = Inr wr" "win_rate_pct sr = py_round2 wr"
    using f(8) [OF nz] f(2) f(4) by auto
  obtain avg where avg: "float_div_int (fsum (pnls_of ?P ?s)) (s_total sr) = Inr avg"
    "avg_pnl_usd sr = py_round2 avg"
    using f(9) [OF nz] f(4) by (auto simp add: sum_p_is_fsum)
  have sum: "sum_pnl_usd sr = py_round2 (fsum (pnls_of ?P ?s))"
    using f(5) by (simp add: sum_p_is_fsum)
  obtain mx where mx: "map_of (max_p (aggregate ?P)) ?s = Some mx" "max_pnl_usd sr = py_round2 mx"
    using f(6) by blast
  obtain mn where mn: "map_of (min_p (aggregate ?P)) ?s = Some mn" "min_pnl_usd sr = py_round2 mn"
    using f(7) by blast
  have exact: "rounded2 (pct (s_hits sr) (s_total sr)) (win_rate_pct sr) \<and>
               rounded2 (fquot (fsum (pnls_of ?P ?s)) (s_total sr)) (avg_pnl_usd sr)"
    if small: "100 * s_total sr < 2 ^ 53"
  proof -
    from small pos have n53: "s_total sr < 2 ^ 53" by simp
    from small hle have h53: "100 * s_hits sr < 2 ^ 53" by simp
    from win_rate_exact [OF hle(1) pos n53 h53] wr(1) have "wr = pct (s_hits sr) (s_total sr)"
      by simp
    moreover from float_div_int_exact [OF pos n53, of "fsum (pnls_of ?P ?s)"] avg(1)
    have "avg = fquot (fsum (pnls_of ?P ?s)) (s_total sr)"
      by simp
    ultimately show ?thesis
      using wr(2) avg(2) py_round2_rounded2 by simp
  qed
  have zero: "dd_int (cnt a) k = 0 \<longrightarrow> summary_line a k = Inr r \<longrightarrow>
                win_rate_pct r = Fin False 0 \<and> avg_pnl_usd r = Fin False 0"
    using summary_line_fields(10) [of a k r] by blast
  have r_sum: "rounded2 (fsum (pnls_of ?P ?s)) (sum_pnl_usd sr)"
    using sum py_round2_rounded2 by simp
  have r_mx: "rounded2 mx (max_pnl_usd sr)"
    using mx(2) py_round2_rounded2 by simp
  have r_mn: "rounded2 mn (min_pnl_usd sr)"
    using mn(2) py_round2_rounded2 by simp
  have acc: "dd_float (sum_p (aggregate rows)) s = fsum (pnls_of rows s)"
    by (rule sum_p_is_fsum)
  from pos have "s_total sr \<noteq> 0" by simp
  with hit tot exact r_sum mx mn r_mx r_mn wr avg sum acc zero show ?thesis
    by blast
qed

theorem summary_fields_rounded_on_emission_witness:
  "fst (main (world_of mixed_lines)) = None \<and>
   mixed_aapl \<in> set (summary_rows (snd (main (world_of mixed_lines)))) \<and>
   s_hits mixed_aapl = 2 \<and> s_total mixed_aapl = 3 \<and>
   100 * s_total mixed_aapl < 2 ^ 53 \<and>
   pct 2 3 = Fin False (4691249611844267 / 70368744177664) \<and>
   win_rate_pct mixed_aapl = Fin False (4691484174324859 / 70368744177664) \<and>
   rounded2 (pct (s_hits mixed_aapl) (s_total mixed_aapl)) (win_rate_pct mixed_aapl) \<and>
   fsum (pnls_of mixed_trades ''AAPL'') = Fin False (2816157141990113 / 281474976710656) \<and>
   fquot (Fin False (2816157141990113 / 281474976710656)) 3 =
     Fin False (7509752378640301 / 2251799813685248) \<and>
   avg_pnl_usd mixed_aapl = Fin False (1874623344892969 / 562949953421312) \<and>
   rounded2 (fquot (fsum (pnls_of mixed_trades (s_symbol mixed_aapl))) (s_total mixed_aapl))
     (avg_pnl_usd mixed_aapl) \<and>
   sum_pnl_usd mixed_aapl = Fin False 10 \<and>
   rounded2 (fsum (pnls_of mixed_trades (s_symbol mixed_aapl))) (sum_pnl_usd mixed_aapl) \<and>
   dd_float (sum_p (aggregate mixed_trades)) ''AAPL'' = fsum (pnls_of mixed_trades ''AAPL'') \<and>
   dd_int (cnt idle_tallies) ''X'' = 0 \<and>
   summary_line idle_tallies ''X'' = Inr idle_row \<and>
   win_rate_pct idle_row = Fin False 0 \<and> avg_pnl_usd idle_row = Fin False 0"
proof -
  have h: "mixed_aapl \<in> set (summary_rows (snd (main (world_of mixed_lines))))"
    by (simp add: mixed_run)
  have z: "dd_int (cnt idle_tallies) ''X'' = 0"
    by (simp add: idle_tallies_def dd_int_def no_tallies_def)
  have v: "s_hits mixed_aapl = 2" "s_total mixed_aapl = 3"
    "win_rate_pct mixed_aapl = Fin False (4691484174324859 / 70368744177664)"
    "avg_pnl_usd mixed_aapl = Fin False (1874623344892969 / 562949953421312)"
    "sum_pnl_usd mixed_aapl = Fin False 10"
    by (simp_all add: mixed_aapl_def)
  have b: "100 * s_total mixed_aapl < 2 ^ 53"
    by (simp add: mixed_aapl_def)
  note c = summary_fields_rounded_on_emission
             [OF mixed_run(1) h, of mixed_trades "''AAPL''" idle_tallies "''X''" idle_row,
              unfolded mixed_run(2)]
  from c z idle_line h mixed_run(1) v b mixed_values show ?thesis by blast
qed

subsection \<open>Maximum and minimum\<close>

lemma run_pnls_not_NaN:
  assumes "fst (main w) = None" and "p \<in> set (pnls_of (per_trade_rows (snd (main w))) s)"
  shows "p \<noteq> NaN"
proof -
  from run_facts [OF assms(1)] obtain lines where
    eq: "map parse_line (filter matching lines) =
           map (\<lambda>r. Inr (Some r)) (per_trade_rows (snd (main w)))" by blast
  from assms(2) obtain r where r: "r \<in> set (per_trade_rows (snd (main w)))" "p = pnl_usd r"
    by (auto simp add: pnls_of_def rows_of_def)
  from parsed_pnl [OF eq r(1)] r(2) show ?thesis by simp
qed

text \<open>
  C6. For every row of the summary, the maximum and the minimum reported are the greatest
  and the least of the pnl values of the symbol's rows, each rounded to two decimals in
  the row: a value among them that no other exceeds, and one that none falls below. On
  the first row of a symbol both running extrema are that row's pnl.
\<close>

theorem extrema_are_true:
  assumes "fst (main w) = None" and "sr \<in> set (summary_rows (snd (main w)))"
  shows "(\<exists>mx mn.
            mx \<in> set (pnls_of (per_trade_rows (snd (main w))) (s_symbol sr)) \<and>
            mn \<in> set (pnls_of (per_trade_rows (snd (main w))) (s_symbol sr)) \<and>
            (\<forall>p \<in> set (pnls_of (per_trade_rows (snd (main w))) (s_symbol sr)). fle p mx) \<and>
            (\<forall>p \<in> set (pnls_of (per_trade_rows (snd (main w))) (s_symbol sr)). fle mn p) \<and>
            max_pnl_usd sr = py_round2 mx \<and> min_pnl_usd sr = py_round2 mn) \<and>
         (rows_of rows (symbol r) = [] \<longrightarrow>
            map_of (max_p (aggregate (rows @ [r]))) (symbol r) = Some (pnl_usd r) \<and>
            map_of (min_p (aggregate (rows @ [r]))) (symbol r) = Some (pnl_usd r))"
proof -
  let ?P = "per_trade_rows (snd (main w))"
  let ?s = "s_symbol sr"
  let ?ps = "pnls_of ?P ?s"
  from summary_row_line [OF assms]
  have line: "summary_line (aggregate ?P) ?s = Inr sr" by simp
  from summary_line_fields(6) [OF line] obtain mx where
    mx: "map_of (max_p (aggregate ?P)) ?s = Some mx" "max_pnl_usd sr = py_round2 mx" by blast
  from summary_line_fields(7) [OF line] obtain mn where
    mn: "map_of (min_p (aggregate ?P)) ?s = Some mn" "min_pnl_usd sr = py_round2 mn" by blast
  from max_p_aggregate [of ?P ?s] mx(1)
  have mx_in: "mx \<in> set ?ps" and mx_top: "\<forall>p \<in> set ?ps. \<not> flt mx p" by simp_all
  from min_p_aggregate [of ?P ?s] mn(1)
  have mn_in: "mn \<in> set ?ps" and mn_bot: "\<forall>p \<in> set ?ps. \<not> flt p mn" by simp_all
  have nn: "p \<noteq> NaN" if "p \<in> set ?ps" for p
    using run_pnls_not_NaN [OF assms(1) that] .
  have top: "\<forall>p \<in> set ?ps. fle p mx"
    using mx_top mx_in nn by (simp add: fle_def)
  have bot: "\<forall>p \<in> set ?ps. fle mn p"
    using mn_bot mn_in nn by (simp add: fle_def)
  have first: "rows_of rows (symbol r) = [] \<longrightarrow>
                 map_of (max_p (aggregate (rows @ [r]))) (symbol r) = Some (pnl_usd r) \<and>
                 map_of (min_p (aggregate (rows @ [r]))) (symbol r) = Some (pnl_usd r)"
  proof
    assume e: "rows_of rows (symbol r) = []"
    then have "pnls_of rows (symbol r) = []" by (simp add: pnls_of_def)
    with max_p_aggregate [of rows "symbol r"] min_p_aggregate [of rows "symbol r"]
    have "map_of (max_p (aggregate rows)) (symbol r) = None"
      "map_of (min_p (aggregate rows)) (symbol r) = None"
      by (auto split: option.splits)
    then show "map_of (max_p (aggregate (rows @ [r]))) (symbol r) = Some (pnl_usd r) \<and>
               map_of (min_p (aggregate (rows @ [r]))) (symbol r) = Some (pnl_usd r)"
      by (simp add: aggregate_snoc max_p_fold_row min_p_fold_row update_conv')
  qed
  from mx_in mn_in top bot mx(2) mn(2) first show ?thesis by blast
qed

theorem extrema_are_true_witness:
  "fst (main (world_of sample_lines)) = None \<and>
   sample_aapl \<in> set (summary_rows (snd (main (world_of sample_lines)))) \<and>
   (\<exists>mx mn.
      mx \<in> set (pnls_of sample_trades (s_symbol sample_aapl)) \<and>
      mn \<in> set (pnls_of sample_trades (s_symbol sample_aapl)) \<and>
      (\<forall>p \<in> set (pnls_of sample_trades (s_symbol sample_aapl)). fle p mx) \<and>
      (\<forall>p \<in> set (pnls_of sample_trades (s_symbol sample_aapl)). fle mn p) \<and>
      max_pnl_usd sample_aapl = py_round2 mx \<and> min_pnl_usd sample_aapl = py_round2 mn) \<and>
   rows_of [] (symbol (trade_at (Fin True 5))) = [] \<and>
   map_of (max_p (aggregate ([] @ [trade_at (Fin True 5)]))) (symbol (trade_at (Fin True 5))) =
     Some (pnl_usd (trade_at (Fin True 5))) \<and>
   map_of (min_p (aggregate ([] @ [trade_at (Fin True 5)]))) (symbol (trade_at (Fin True 5))) =
     Some (pnl_usd (trade_at (Fin True 5)))"
proof -
  have h: "sample_aapl \<in> set (summary_rows (snd (main (world_of sample_lines))))"
    by (simp add: sample_run)
  have e: "rows_of [] (symbol (trade_at (Fin True 5))) = []"
    by (simp add: rows_of_def)
  note c = extrema_are_true [OF sample_run(1) h, of "[]" "trade_at (Fin True 5)",
             unfolded sample_run(3)]
  from c e h sample_run(1) show ?thesis by blast
qed

subsection \<open>The order of the rows\<close>

lemma swing_parsed:
  "parse_lines (map line_at [''10000000000000000'', ''1'', ''-10000000000000000'']) [] = Inr swing"
  "parse_lines (map line_at [''10000000000000000'', ''-10000000000000000'', ''1'']) [] =
     Inr swing_permuted"
  by code_simp+

lemma swing_sums:
  "dd_float (sum_p (aggregate swing)) ''X'' = Fin False 0"
  "dd_float (sum_p (aggregate swing_permuted)) ''X'' = Fin False 1"
  by code_simp+

lemma zeros_max:
  "map_of (max_p (aggregate [trade_at (Fin False 0), trade_at (Fin True 0)])) ''X'' =
     Some (Fin False 0)"
  "map_of (max_p (aggregate [trade_at (Fin True 0), trade_at (Fin False 0)])) ''X'' =
     Some (Fin True 0)"
  by code_simp+

text \<open>
  C2 as stated fails: the rows \<open>swing\<close> and \<open>swing_permuted\<close> are parsed from the same
  three log lines in two orders, and the sum the fold accumulates for their symbol is
  \<^verbatim>\<open>0.0\<close> for one and \<^verbatim>\<open>1.0\<close> for the other, since \<^verbatim>\<open>1e16 + 1.0\<close> rounds to \<^verbatim>\<open>1e16\<close>. The
  running maximum of \<^verbatim>\<open>0.0\<close> and \<^verbatim>\<open>-0.0\<close> is whichever comes first.
\<close>

theorem sum_depends_on_order:
  "parse_lines (map line_at [''10000000000000000'', ''1'', ''-10000000000000000'']) [] = Inr swing \<and>
   parse_lines (map line_at [''10000000000000000'', ''-10000000000000000'', ''1'']) [] =
     Inr swing_permuted \<and>
   mset swing = mset swing_permuted \<and>
   dd_float (sum_p (aggregate swing)) ''X'' = Fin False 0 \<and>
   dd_float (sum_p (aggregate swing_permuted)) ''X'' = Fin False 1 \<and>
   mset [trade_at (Fin False 0), trade_at (Fin True 0)] =
     mset [trade_at (Fin True 0), trade_at (Fin False 0)] \<and>
   map_of (max_p (aggregate [trade_at (Fin False 0), trade_at (Fin True 0)])) ''X'' =
     Some (Fin False 0) \<and>
   map_of (max_p (aggregate [trade_at (Fin True 0), trade_at (Fin False 0)])) ''X'' =
     Some (Fin True 0)"
proof -
  have p: "mset swing = mset swing_permuted"
    by (simp add: swing_def swing_permuted_def)
  have z: "mset [trade_at (Fin False 0), trade_at (Fin True 0)] =
           mset [trade_at (Fin True 0), trade_at (Fin False 0)]"
    by simp
  from swing_parsed swing_sums zeros_max p z show ?thesis by blast
qed

lemma feq_extremes:
  assumes "a \<in> A" "b \<in> A" "\<forall>p \<in> A. \<not> flt a p" "\<forall>p \<in> A. \<not> flt b p" "\<forall>p \<in> A. p \<noteq> NaN"
  shows "feq a b"
  using assms by (simp add: feq_def fle_def)

lemma feq_extremes_low:
  assumes "a \<in> A" "b \<in> A" "\<forall>p \<in> A. \<not> flt p a" "\<forall>p \<in> A. \<not> flt p b" "\<forall>p \<in> A. p \<noteq> NaN"
  shows "feq a b"
  using assms by (simp add: feq_def fle_def)

text \<open>
  C2, amended. For rows that are a permutation of each other the fold ends with the same
  keys and, for every symbol, the same count, hit count and miss count, and with maxima
  and minima that are equal as floats (\<^verbatim>\<open>==\<close>). The sum is left out: it is the float sum in
  row order.
\<close>

theorem permuted_rows_same_counts_and_extrema:
  assumes "mset rows = mset rows'" and "\<forall>r \<in> set rows. pnl_usd r \<noteq> NaN"
  shows "set (map fst (cnt (aggregate rows))) = set (map fst (cnt (aggregate rows'))) \<and>
         dd_int (cnt (aggregate rows)) s = dd_int (cnt (aggregate rows')) s \<and>
         dd_int (hits (aggregate rows)) s = dd_int (hits (aggregate rows')) s \<and>
         dd_int (miss (aggregate rows)) s = dd_int (miss (aggregate rows')) s \<and>
         rel_option feq (map_of (max_p (aggregate rows)) s) (map_of (max_p (aggregate rows')) s) \<and>
         rel_option feq (map_of (min_p (aggregate rows)) s) (map_of (min_p (aggregate rows')) s)"
proof -
  from assms(1) have sets: "set rows = set rows'"
    by (rule mset_eq_setD)
  from assms(1) have sel: "mset (rows_of rows s) = mset (rows_of rows' s)"
    by (simp add: rows_of_def mset_filter)
  then have len: "length (rows_of rows s) = length (rows_of rows' s)"
    by (rule mset_eq_length)
  from sel have "mset (filter (\<lambda>r. status r = ''HIT'') (rows_of rows s)) =
                 mset (filter (\<lambda>r. status r = ''HIT'') (rows_of rows' s))"
    by (simp add: mset_filter)
  then have hit: "length (filter (\<lambda>r. status r = ''HIT'') (rows_of rows s)) =
                  length (filter (\<lambda>r. status r = ''HIT'') (rows_of rows' s))"
    by (rule mset_eq_length)
  from sel have "mset (filter (\<lambda>r. status r \<noteq> ''HIT'') (rows_of rows s)) =
                 mset (filter (\<lambda>r. status r \<noteq> ''HIT'') (rows_of rows' s))"
    by (simp add: mset_filter)
  then have mis: "length (filter (\<lambda>r. status r \<noteq> ''HIT'') (rows_of rows s)) =
                  length (filter (\<lambda>r. status r \<noteq> ''HIT'') (rows_of rows' s))"
    by (rule mset_eq_length)
  from sel have "set (rows_of rows s) = set (rows_of rows' s)"
    by (rule mset_eq_setD)
  then have ps: "set (pnls_of rows s) = set (pnls_of rows' s)"
    by (simp add: pnls_of_def)
  have nn: "\<forall>p \<in> set (pnls_of rows s). p \<noteq> NaN"
    using assms(2) by (auto simp add: pnls_of_def rows_of_def)
  from len have empty: "rows_of rows s = [] \<longleftrightarrow> rows_of rows' s = []"
    by (metis length_0_conv)
  have mx: "rel_option feq (map_of (max_p (aggregate rows)) s) (map_of (max_p (aggregate rows')) s)"
  proof (cases "map_of (max_p (aggregate rows)) s")
    case None
    with max_p_aggregate [of rows s] have "rows_of rows s = []" by simp
    with empty have "pnls_of rows' s = []" by (simp add: pnls_of_def)
    with max_p_aggregate [of rows' s] have "map_of (max_p (aggregate rows')) s = None"
      by (auto split: option.splits)
    with None show ?thesis by simp
  next
    case (Some a)
    with max_p_aggregate [of rows s]
    have a: "a \<in> set (pnls_of rows s)" "\<forall>p \<in> set (pnls_of rows s). \<not> flt a p" by simp_all
    then have "rows_of rows' s \<noteq> []" using empty by (auto simp add: pnls_of_def)
    with max_p_aggregate [of rows' s] obtain b where
      b: "map_of (max_p (aggregate rows')) s = Some b" "b \<in> set (pnls_of rows' s)"
      "\<forall>p \<in> set (pnls_of rows' s). \<not> flt b p"
      by (auto split: option.splits)
    from a(1) b(2) a(2) b(3) nn have "feq a b" unfolding ps [symmetric] by (rule feq_extremes)
    with Some b(1) show ?thesis by simp
  qed
  have mn: "rel_option feq (map_of (min_p (aggregate rows)) s) (map_of (min_p (aggregate rows')) s)"
  proof (cases "map_of (min_p (aggregate rows)) s")
    case None
    with min_p_aggregate [of rows s] have "rows_of rows s = []" by simp
    with empty have "pnls_of rows' s = []" by (simp add: pnls_of_def)
    with min_p_aggregate [of rows' s] have "map_of (min_p (aggregate rows')) s = None"
      by (auto split: option.splits)
    with None show ?thesis by simp
  next
    case (Some a)
    with min_p_aggregate [of rows s]
    have a: "a \<in> set (pnls_of rows s)" "\<forall>p \<in> set (pnls_of rows s). \<not> flt p a" by simp_all
    then have "rows_of rows' s \<noteq> []" using empty by (auto simp add: pnls_of_def)
    with min_p_aggregate [of rows' s] obtain b where
      b: "map_of (min_p (aggregate rows')) s = Some b" "b \<in> set (pnls_of rows' s)"
      "\<forall>p \<in> set (pnls_of rows' s). \<not> flt p b"
      by (auto split: option.splits)
    from a(1) b(2) a(2) b(3) nn have "feq a b" unfolding ps [symmetric] by (rule feq_extremes_low)
    with Some b(1) show ?thesis by simp
  qed
  from sets len hit mis mx mn show ?thesis
    using keys_aggregate [of rows] keys_aggregate [of rows']
    by (simp add: cnt_is_length hits_aggregate miss_aggregate)
qed

theorem permuted_rows_same_counts_and_extrema_witness:
  "mset swing = mset swing_permuted \<and>
   list_all (\<lambda>r. pnl_usd r \<noteq> NaN) swing \<and>
   set (map fst (cnt (aggregate swing))) = set (map fst (cnt (aggregate swing_permuted))) \<and>
   dd_int (cnt (aggregate swing)) ''X'' = dd_int (cnt (aggregate swing_permuted)) ''X'' \<and>
   dd_int (hits (aggregate swing)) ''X'' = dd_int (hits (aggregate swing_permuted)) ''X'' \<and>
   dd_int (miss (aggregate swing)) ''X'' = dd_int (miss (aggregate swing_permuted)) ''X'' \<and>
   rel_option feq (map_of (max_p (aggregate swing)) ''X'')
     (map_of (max_p (aggregate swing_permuted)) ''X'') \<and>
   rel_option feq (map_of (min_p (aggregate swing)) ''X'')
     (map_of (min_p (aggregate swing_permuted)) ''X'')"
proof -
  have p: "mset swing = mset swing_permuted"
    by (simp add: swing_def swing_permuted_def)
  have n: "\<forall>r \<in> set swing. pnl_usd r \<noteq> NaN"
    by (simp add: swing_def trade_at_def)
  have n': "list_all (\<lambda>r. pnl_usd r \<noteq> NaN) swing"
    using n by (simp add: list_all_iff)
  from permuted_rows_same_counts_and_extrema [OF p n, of "''X''"] p n'
  show ?thesis by blast
qed

subsection \<open>Where a match starts\<close>










end
